theory Spec2Isabelle
  imports Main "HOL-Library.Word"
begin

section \<open>libavutil/opencl.c: the OpenCL wrapper\<close>

text \<open>
  A shallow embedding of \<^verbatim>\<open>libavutil/opencl.c\<close>. The global \<^verbatim>\<open>gpu_env\<close> is a
  record that every operation takes and returns. The OpenCL runtime is outside the
  file: each operation takes the answers of the runtime calls it makes as arguments
  and returns, next to its result, the list of runtime calls and log lines it made,
  in order. Opaque OpenCL objects and C pointers are natural numbers, \<open>0\<close> being
  \<^verbatim>\<open>NULL\<close>.
\<close>

subsection \<open>The error translator\<close>

type_synonym cl_int = int

text \<open>
  The message table \<^verbatim>\<open>opencl_err_msg\<close>, in source order. The numeric values of
  the \<^verbatim>\<open>CL_*\<close> status macros are those of the Khronos header \<^verbatim>\<open>CL/cl.h\<close>, which
  the file includes through \<^verbatim>\<open>opencl.h\<close>.
\<close>

definition opencl_err_msg :: "(cl_int \<times> string) list" where
  "opencl_err_msg =
    [(- 1, ''DEVICE NOT FOUND''),
     (- 2, ''DEVICE NOT AVAILABLE''),
     (- 3, ''COMPILER NOT AVAILABLE''),
     (- 4, ''MEM OBJECT ALLOCATION FAILURE''),
     (- 5, ''OUT OF RESOURCES''),
     (- 6, ''OUT OF HOST MEMORY''),
     (- 7, ''PROFILING INFO NOT AVAILABLE''),
     (- 8, ''MEM COPY OVERLAP''),
     (- 9, ''IMAGE FORMAT MISMATCH''),
     (- 10, ''IMAGE FORMAT NOT_SUPPORTED''),
     (- 11, ''BUILD PROGRAM FAILURE''),
     (- 12, ''MAP FAILURE''),
     (- 13, ''MISALIGNED SUB BUFFER OFFSET''),
     (- 14, ''EXEC STATUS ERROR FOR EVENTS IN WAIT LIST''),
     (- 15, ''COMPILE PROGRAM FAILURE''),
     (- 16, ''LINKER NOT AVAILABLE''),
     (- 17, ''LINK PROGRAM FAILURE''),
     (- 18, ''DEVICE PARTITION FAILED''),
     (- 19, ''KERNEL ARG INFO NOT AVAILABLE''),
     (- 30, ''INVALID VALUE''),
     (- 31, ''INVALID DEVICE TYPE''),
     (- 32, ''INVALID PLATFORM''),
     (- 33, ''INVALID DEVICE''),
     (- 34, ''INVALID CONTEXT''),
     (- 35, ''INVALID QUEUE PROPERTIES''),
     (- 36, ''INVALID COMMAND QUEUE''),
     (- 37, ''INVALID HOST PTR''),
     (- 38, ''INVALID MEM OBJECT''),
     (- 39, ''INVALID IMAGE FORMAT DESCRIPTOR''),
     (- 40, ''INVALID IMAGE SIZE''),
     (- 41, ''INVALID SAMPLER''),
     (- 42, ''INVALID BINARY''),
     (- 43, ''INVALID BUILD OPTIONS''),
     (- 44, ''INVALID PROGRAM''),
     (- 45, ''INVALID PROGRAM EXECUTABLE''),
     (- 46, ''INVALID KERNEL NAME''),
     (- 47, ''INVALID KERNEL DEFINITION''),
     (- 48, ''INVALID KERNEL''),
     (- 49, ''INVALID ARG INDEX''),
     (- 50, ''INVALID ARG VALUE''),
     (- 51, ''INVALID ARG_SIZE''),
     (- 52, ''INVALID KERNEL ARGS''),
     (- 53, ''INVALID WORK DIMENSION''),
     (- 54, ''INVALID WORK GROUP SIZE''),
     (- 55, ''INVALID WORK ITEM SIZE''),
     (- 56, ''INVALID GLOBAL OFFSET''),
     (- 57, ''INVALID EVENT WAIT LIST''),
     (- 58, ''INVALID EVENT''),
     (- 59, ''INVALID OPERATION''),
     (- 60, ''INVALID GL OBJECT''),
     (- 61, ''INVALID BUFFER SIZE''),
     (- 62, ''INVALID MIP LEVEL''),
     (- 63, ''INVALID GLOBAL WORK SIZE''),
     (- 64, ''INVALID PROPERTY''),
     (- 65, ''INVALID IMAGE DESCRIPTOR''),
     (- 66, ''INVALID COMPILER OPTIONS''),
     (- 67, ''INVALID LINKER OPTIONS''),
     (- 68, ''INVALID DEVICE PARTITION COUNT'')]"

text \<open>
  What a call of \<^verbatim>\<open>opencl_errstr\<close> does: it returns a string, or it reads
  \<^verbatim>\<open>opencl_err_msg[i]\<close> at an index \<open>i\<close> past the last entry of the table, which C
  leaves undefined.
\<close>

datatype errstr_result = Str string | Read_past_table nat

text \<open>
  The loop \<^verbatim>\<open>for (i = 0; i < sizeof(opencl_err_msg); i++)\<close>, from index \<open>i\<close> on,
  with the loop bound as an argument.
\<close>

function opencl_errstr_from :: "nat \<Rightarrow> nat \<Rightarrow> (cl_int \<times> string) list \<Rightarrow> cl_int \<Rightarrow> errstr_result" where
  "opencl_errstr_from i bound tbl status =
     (if i < bound then
        (if i < length tbl then
           (if fst (tbl ! i) = status then Str (snd (tbl ! i))
            else opencl_errstr_from (Suc i) bound tbl status)
         else Read_past_table i)
      else Str ''unknown error'')"
  by pat_completeness auto
termination
  by (relation "measure (\<lambda>(i, bound, tbl, status). bound - i)") auto

text \<open>
  \<^verbatim>\<open>sizeof(opencl_err_msg)\<close> is the size of the table in bytes: the number of entries
  times the size of one \<^verbatim>\<open>OpenclErrorMsg\<close> (an \<^verbatim>\<open>int\<close> and a pointer: 16 bytes on an
  LP64 target, 8 on an ILP32 one), which is the argument \<open>sizeof_elem\<close>.
\<close>

definition sizeof_opencl_err_msg :: "nat \<Rightarrow> nat" where
  "sizeof_opencl_err_msg sizeof_elem = length opencl_err_msg * sizeof_elem"

definition opencl_errstr :: "nat \<Rightarrow> cl_int \<Rightarrow> errstr_result" where
  "opencl_errstr sizeof_elem status =
     opencl_errstr_from 0 (sizeof_opencl_err_msg sizeof_elem) opencl_err_msg status"

subsection \<open>Return codes, runtime answers, the trace of a call\<close>

type_synonym handle = nat

text \<open>
  The \<^verbatim>\<open>int\<close> a function returns: \<open>0\<close>, or one of the negative error codes the file
  uses. Every test \<^verbatim>\<open>ret < 0\<close> of the source is \<open>ret \<noteq> RET_OK\<close> here.
\<close>

datatype av_ret = RET_OK | AVERROR_EINVAL | AVERROR_EXTERNAL | AVERROR_ENOMEM

text \<open>The lines the file writes with \<^verbatim>\<open>av_log\<close>, named after their text.\<close>

datatype log_msg =
    Max_registered_kernel_code_reached
  | Same_kernel_code_registered
  | Kernel_name_too_long string
  | Max_number_of_kernels_reached string
  | Program_count_is_0
  | Could_not_create_kernel cl_int
  | Could_not_release_kernel cl_int
  | User_set_platform_index_not_exist
  | No_devices_in_user_platform int
  | Could_not_get_platforms
  | Could_not_get_device_idx int
  | Platform_name_device_id string handle
  | Could_not_get_context cl_int
  | Could_not_create_command_queue cl_int
  | Could_not_create_program cl_int
  | Created_program_is_NULL
  | Could_not_compile_kernel cl_int
  | No_kernel_code_registered
  | Could_not_release_program cl_int
  | Could_not_release_command_queue cl_int
  | Could_not_release_context cl_int
  | Could_not_release_buffer cl_int
  | Buffer_too_small
  | Could_not_map_buffer cl_int
  | Could_not_unmap_buffer cl_int

text \<open>
  What a call does besides changing \<^verbatim>\<open>gpu_env\<close>: the runtime calls it makes, with
  their arguments, the two helpers of the file that free or build the device list, and
  its log lines.
\<close>

datatype event =
    Call_get_device_list
  | Call_free_device_list
  | Call_av_opt_free
  | Call_clCreateContextFromType handle nat
  | Call_clCreateCommandQueue handle handle
  | Call_clCreateProgramWithSource handle string
  | Call_clBuildProgram handle handle "string option"
  | Call_clCreateKernel handle string
  | Call_clReleaseKernel handle
  | Call_clReleaseProgram handle
  | Call_clReleaseCommandQueue handle
  | Call_clReleaseContext handle
  | Call_clReleaseMemObject handle
  | Call_clEnqueueMapBuffer handle handle "64 word"
  | Call_memcpy_to_mapped int handle "64 word"
  | Call_clEnqueueUnmapMemObject handle handle
  | Av_log log_msg

text \<open>The device list of \<^verbatim>\<open>opencl.h\<close>: platforms in discovery order, each with its devices.\<close>

record AVOpenCLDeviceNode =
  dn_device_type :: nat
  dn_device_name :: string
  dn_device_id :: handle

record AVOpenCLPlatformNode =
  pn_platform_id :: handle
  pn_platform_name :: string
  pn_device_node :: "AVOpenCLDeviceNode list"

text \<open>
  \<^verbatim>\<open>device_num\<close> of a platform is the number of its device nodes, \<^verbatim>\<open>platform_num\<close> of
  a device list the number of its platform nodes.
\<close>

definition pn_device_num :: "AVOpenCLPlatformNode \<Rightarrow> int" where
  "pn_device_num p = int (length (pn_device_node p))"

type_synonym AVOpenCLDeviceList = "AVOpenCLPlatformNode list"

definition platform_num :: "AVOpenCLDeviceList \<Rightarrow> int" where
  "platform_num dl = int (length dl)"

text \<open>
  The answers of the world outside the file to the calls one operation makes: the
  status (and the object) each OpenCL call returns for its arguments, whether
  \<^verbatim>\<open>av_mallocz\<close> of a size succeeds, and what \<^verbatim>\<open>get_device_list\<close> finds (its return
  code and the list it builds). The enumeration inside \<^verbatim>\<open>get_device_list\<close> is not
  unfolded: whatever it returns is covered.
\<close>

record cl_runtime =
  clCreateContextFromType :: "handle \<Rightarrow> nat \<Rightarrow> handle \<times> cl_int"
  clCreateCommandQueue :: "handle \<Rightarrow> handle \<Rightarrow> handle \<times> cl_int"
  clCreateProgramWithSource :: "handle \<Rightarrow> string \<Rightarrow> handle \<times> cl_int"
  clBuildProgram :: "handle \<Rightarrow> handle \<Rightarrow> string option \<Rightarrow> cl_int"
  clCreateKernel :: "handle \<Rightarrow> string \<Rightarrow> handle \<times> cl_int"
  clReleaseKernel :: "handle \<Rightarrow> cl_int"
  clReleaseProgram :: "handle \<Rightarrow> cl_int"
  clReleaseCommandQueue :: "handle \<Rightarrow> cl_int"
  clReleaseContext :: "handle \<Rightarrow> cl_int"
  clReleaseMemObject :: "handle \<Rightarrow> cl_int"
  clEnqueueMapBuffer :: "handle \<Rightarrow> handle \<Rightarrow> 64 word \<Rightarrow> handle \<times> cl_int"
  clEnqueueUnmapMemObject :: "handle \<Rightarrow> handle \<Rightarrow> handle \<Rightarrow> cl_int"
  av_mallocz_ok :: "nat \<Rightarrow> bool"
  get_device_list :: "av_ret \<times> AVOpenCLDeviceList"

definition CL_SUCCESS :: cl_int where
  "CL_SUCCESS = 0"

subsection \<open>The environment\<close>

definition MAX_KERNEL_NUM :: int where
  "MAX_KERNEL_NUM = 500"

definition MAX_KERNEL_CODE_NUM :: nat where
  "MAX_KERNEL_CODE_NUM = 200"

text \<open>
  \<^verbatim>\<open>KernelCode\<close>: the flag \<^verbatim>\<open>is_compiled\<close> (only ever 0 or 1) and the pointer to the
  source text, which is the identity of a registered source.
\<close>

record KernelCode =
  is_compiled :: bool
  kernel_string :: handle

text \<open>
  \<^verbatim>\<open>GPUEnv\<close>. The arrays \<^verbatim>\<open>programs\<close> and \<^verbatim>\<open>kernel_code\<close> are functions of the index.
  \<^verbatim>\<open>init_count\<close> is an \<^verbatim>\<open>int\<close> that the code increments and decrements with no bound
  of its own: it is a 32-bit word, read as signed by \<open>sint\<close>, whose addition and
  subtraction wrap around. \<^verbatim>\<open>kernel_count\<close> is incremented only while it is below
  \<^verbatim>\<open>MAX_KERNEL_NUM\<close>, so that its increment cannot overflow, and is an integer; its
  decrement has no floor, in the code and here. \<^verbatim>\<open>program_count\<close> and
  \<^verbatim>\<open>kernel_code_count\<close> start at 0, are only ever incremented, and stay within
  \<^verbatim>\<open>MAX_KERNEL_CODE_NUM\<close>: they are naturals. The flag \<^verbatim>\<open>is_user_created\<close> is only
  ever 0 or 1. The field \<^verbatim>\<open>context\<close> is \<open>context_cl\<close>.
\<close>

record GPUEnv =
  init_count :: "32 word"
  platform_idx :: int
  device_idx :: int
  platform_id :: handle
  device_type :: nat
  context_cl :: handle
  device_id :: handle
  command_queue :: handle
  program_count :: nat
  programs :: "nat \<Rightarrow> handle"
  kernel_code_count :: nat
  kernel_code :: "nat \<Rightarrow> KernelCode"
  kernel_count :: int
  is_user_created :: bool
  device_list :: AVOpenCLDeviceList

text \<open>The static \<^verbatim>\<open>gpu_env\<close> before any call: every field zero.\<close>

definition gpu_env_zero :: GPUEnv where
  "gpu_env_zero =
     \<lparr>init_count = 0, platform_idx = 0, device_idx = 0, platform_id = 0, device_type = 0,
      context_cl = 0, device_id = 0, command_queue = 0, program_count = 0,
      programs = (\<lambda>i. 0), kernel_code_count = 0,
      kernel_code = (\<lambda>i. \<lparr>is_compiled = False, kernel_string = 0\<rparr>),
      kernel_count = 0, is_user_created = False, device_list = []\<rparr>"

subsection \<open>Registering kernel source\<close>

text \<open>
  \<^verbatim>\<open>av_opencl_register_kernel_code\<close>: the capacity test comes first, then the scan
  for the same pointer, then the append.
\<close>

definition av_opencl_register_kernel_code :: "handle \<Rightarrow> GPUEnv \<Rightarrow> av_ret \<times> GPUEnv \<times> event list" where
  "av_opencl_register_kernel_code kernel_code_ptr g =
     (if kernel_code_count g \<ge> MAX_KERNEL_CODE_NUM then
        (AVERROR_EINVAL, g, [Av_log Max_registered_kernel_code_reached])
      else if list_ex (\<lambda>i. kernel_string (kernel_code g i) = kernel_code_ptr)
                [0 ..< kernel_code_count g] then
        (RET_OK, g, [Av_log Same_kernel_code_registered])
      else
        (RET_OK,
         g\<lparr>kernel_code := (kernel_code g)
              (kernel_code_count g := \<lparr>is_compiled = False, kernel_string = kernel_code_ptr\<rparr>),
           kernel_code_count := kernel_code_count g + 1\<rparr>,
         []))"

subsection \<open>Kernel handles\<close>

text \<open>\<^verbatim>\<open>AVOpenCLKernelEnv\<close> of \<^verbatim>\<open>opencl.h\<close>: the caller's storage for one kernel.\<close>

record AVOpenCLKernelEnv =
  ke_command_queue :: handle
  kernel :: handle
  kernel_name :: string

text \<open>
  The loop over the programs in \<^verbatim>\<open>av_opencl_create_kernel\<close>, which stops at the first
  program for which \<^verbatim>\<open>clCreateKernel\<close> succeeds: the kernel and status of the last
  call made, and the calls. The loop runs at least once (\<^verbatim>\<open>program_count\<close> is not 0).
\<close>

fun create_kernel_loop :: "cl_runtime \<Rightarrow> string \<Rightarrow> handle \<Rightarrow> handle list \<Rightarrow> (handle \<times> cl_int) \<times> event list" where
  "create_kernel_loop rt name p [] = (clCreateKernel rt p name, [Call_clCreateKernel p name])"
| "create_kernel_loop rt name p (q # ps) =
     (if snd (clCreateKernel rt p name) = CL_SUCCESS then
        (clCreateKernel rt p name, [Call_clCreateKernel p name])
      else
        (fst (create_kernel_loop rt name q ps),
         Call_clCreateKernel p name # snd (create_kernel_loop rt name q ps)))"

text \<open>
  Modelled from the spec: \<^verbatim>\<open>av_strlcpy\<close> of \<^verbatim>\<open>avstring.c\<close> is outside this
  file; it stores the name in the handle. A copy into a destination of \<open>dst_size\<close>
  bytes keeps at most \<open>dst_size - 1\<close> characters.
\<close>

definition av_strlcpy :: "string \<Rightarrow> nat \<Rightarrow> string" where
  "av_strlcpy src dst_size = take (dst_size - 1) src"

text \<open>
  \<^verbatim>\<open>av_opencl_create_kernel\<close>. \<open>max_name_size\<close> is \<^verbatim>\<open>AV_OPENCL_MAX_KERNEL_NAME_SIZE\<close>
  of \<^verbatim>\<open>opencl.h\<close>, which is also the size of the handle's \<^verbatim>\<open>kernel_name\<close> array.
\<close>

definition av_opencl_create_kernel ::
  "nat \<Rightarrow> cl_runtime \<Rightarrow> AVOpenCLKernelEnv \<Rightarrow> string \<Rightarrow> GPUEnv \<Rightarrow> av_ret \<times> AVOpenCLKernelEnv \<times> GPUEnv \<times> event list" where
  "av_opencl_create_kernel max_name_size rt env name g =
     (if length name + 1 > max_name_size then
        (AVERROR_EINVAL, env, g, [Av_log (Kernel_name_too_long name)])
      else if kernel env = 0 then
        (if kernel_count g \<ge> MAX_KERNEL_NUM then
           (AVERROR_EINVAL, env, g, [Av_log (Max_number_of_kernels_reached name)])
         else if program_count g = 0 then
           (AVERROR_EINVAL, env, g, [Av_log Program_count_is_0])
         else
           (let r = create_kernel_loop rt name (programs g 0)
                      (map (programs g) [1 ..< program_count g]);
                k = fst (fst r);
                status = snd (fst r)
            in if status \<noteq> CL_SUCCESS then
                 (AVERROR_EXTERNAL, env\<lparr>kernel := k\<rparr>, g,
                  snd r @ [Av_log (Could_not_create_kernel status)])
               else
                 (RET_OK,
                  env\<lparr>kernel := k, ke_command_queue := command_queue g,
                      kernel_name := av_strlcpy name max_name_size\<rparr>,
                  g\<lparr>kernel_count := kernel_count g + 1\<rparr>,
                  snd r)))
      else (RET_OK, env, g, []))"

text \<open>\<^verbatim>\<open>av_opencl_release_kernel\<close>.\<close>

definition av_opencl_release_kernel ::
  "cl_runtime \<Rightarrow> AVOpenCLKernelEnv \<Rightarrow> GPUEnv \<Rightarrow> AVOpenCLKernelEnv \<times> GPUEnv \<times> event list" where
  "av_opencl_release_kernel rt env g =
     (if kernel env = 0 then (env, g, [])
      else
        (env\<lparr>kernel := 0, ke_command_queue := 0, kernel_name := []\<rparr>,
         g\<lparr>kernel_count := kernel_count g - 1\<rparr>,
         Call_clReleaseKernel (kernel env) #
           (if clReleaseKernel rt (kernel env) \<noteq> CL_SUCCESS
            then [Av_log (Could_not_release_kernel (clReleaseKernel rt (kernel env)))]
            else [])))"

subsection \<open>Creating the environment\<close>

text \<open>
  \<^verbatim>\<open>OpenclUtils\<close>, the option store: the fields the file reads.
  \<^verbatim>\<open>build_options\<close> is a \<^verbatim>\<open>char *\<close>, \<open>None\<close> being \<^verbatim>\<open>NULL\<close>.
\<close>

record OpenclUtils =
  init_flag :: bool
  u_platform_idx :: int
  u_device_idx :: int
  build_options :: "string option"

text \<open>
  Modelled from the spec: \<^verbatim>\<open>av_opt_set_defaults\<close> of \<^verbatim>\<open>opt.c\<close> is outside this
  file. It gives each option its default, which the table \<^verbatim>\<open>opencl_options\<close> and the
  spec state: \<^verbatim>\<open>platform_idx\<close> and \<^verbatim>\<open>device_idx\<close> are \<open>-1\<close>, \<^verbatim>\<open>build_options\<close> is
  \<^verbatim>\<open>-I.\<close>.
\<close>

definition av_opt_set_defaults :: "OpenclUtils \<Rightarrow> OpenclUtils" where
  "av_opt_set_defaults u =
     u\<lparr>u_platform_idx := - 1, u_device_idx := - 1, build_options := Some ''-I.''\<rparr>"

text \<open>\<^verbatim>\<open>AVOpenCLExternalEnv\<close> of \<^verbatim>\<open>opencl.h\<close>: the environment a caller hands in.\<close>

record AVOpenCLExternalEnv =
  ext_platform_id :: handle
  ext_device_type :: nat
  ext_context :: handle
  ext_device_id :: handle
  ext_command_queue :: handle

text \<open>
  \<^verbatim>\<open>init_opencl_env\<close>, the branch without an external environment, in the order of
  the source. First the device list: \<^verbatim>\<open>get_device_list\<close> runs only when no list is
  cached, and a failing run leaves no list.
\<close>

definition load_device_list :: "cl_runtime \<Rightarrow> GPUEnv \<Rightarrow> av_ret \<times> GPUEnv \<times> event list" where
  "load_device_list rt g =
     (if platform_num (device_list g) = 0 then
        (if fst (get_device_list rt) \<noteq> RET_OK then
           (fst (get_device_list rt), g\<lparr>device_list := []\<rparr>, [Call_get_device_list])
         else
           (RET_OK, g\<lparr>device_list := snd (get_device_list rt)\<rparr>, [Call_get_device_list]))
      else (RET_OK, g, []))"

text \<open>
  The platform: the one of the configured index, or else the first one that has a
  device; when none has, \<^verbatim>\<open>platform_id\<close> and \<^verbatim>\<open>platform_idx\<close> stay as they are.
\<close>

definition select_platform :: "GPUEnv \<Rightarrow> av_ret \<times> GPUEnv \<times> event list" where
  "select_platform g =
     (if platform_idx g \<ge> 0 then
        (if platform_num (device_list g) < platform_idx g + 1 then
           (AVERROR_EINVAL, g, [Av_log User_set_platform_index_not_exist])
         else if pn_device_num (device_list g ! nat (platform_idx g)) = 0 then
           (AVERROR_EINVAL, g, [Av_log (No_devices_in_user_platform (platform_idx g))])
         else
           (RET_OK,
            g\<lparr>platform_id := pn_platform_id (device_list g ! nat (platform_idx g))\<rparr>, []))
      else
        (case List.find (\<lambda>i. pn_device_num (device_list g ! i) \<noteq> 0)
                [0 ..< length (device_list g)] of
           None \<Rightarrow> (RET_OK, g, [])
         | Some i \<Rightarrow>
             (RET_OK,
              g\<lparr>platform_id := pn_platform_id (device_list g ! i), platform_idx := int i\<rparr>,
              [])))"

text \<open>
  The device. The source reads \<^verbatim>\<open>platform_node[platform_idx]\<close> and then
  \<^verbatim>\<open>device_node[device_idx]\<close> with no test of its own; a read outside the list is
  undefined in C and is the result \<open>None\<close>.
\<close>

definition read_device_node :: "GPUEnv \<Rightarrow> (av_ret \<times> GPUEnv \<times> event list) option" where
  "read_device_node g =
     (if platform_idx g < 0 \<or> platform_num (device_list g) \<le> platform_idx g then None
      else if device_idx g < 0 \<or>
              pn_device_num (device_list g ! nat (platform_idx g)) \<le> device_idx g then None
      else
        (let p = device_list g ! nat (platform_idx g);
             device_node = pn_device_node p ! nat (device_idx g)
         in Some (RET_OK,
                  g\<lparr>device_id := dn_device_id device_node,
                    device_type := dn_device_type device_node\<rparr>,
                  [Av_log (Platform_name_device_id (pn_platform_name p)
                             (dn_device_id device_node))])))"

definition select_device :: "GPUEnv \<Rightarrow> (av_ret \<times> GPUEnv \<times> event list) option" where
  "select_device g =
     (if device_idx g \<ge> 0 then
        (if platform_idx g < 0 \<or> platform_num (device_list g) \<le> platform_idx g then None
         else if pn_device_num (device_list g ! nat (platform_idx g)) < device_idx g + 1 then
           Some (AVERROR_EINVAL, g, [Av_log (Could_not_get_device_idx (platform_idx g))])
         else read_device_node g)
      else read_device_node (g\<lparr>device_idx := 0\<rparr>))"

text \<open>The context and the command queue.\<close>

definition create_context_and_queue :: "cl_runtime \<Rightarrow> GPUEnv \<Rightarrow> av_ret \<times> GPUEnv \<times> event list" where
  "create_context_and_queue rt g =
     (let c = clCreateContextFromType rt (platform_id g) (device_type g);
          g1 = g\<lparr>context_cl := fst c\<rparr>;
          ev1 = [Call_clCreateContextFromType (platform_id g) (device_type g)]
      in if snd c \<noteq> CL_SUCCESS then
           (AVERROR_EXTERNAL, g1, ev1 @ [Av_log (Could_not_get_context (snd c))])
         else
           (let q = clCreateCommandQueue rt (context_cl g1) (device_id g1);
                g2 = g1\<lparr>command_queue := fst q\<rparr>;
                ev2 = ev1 @ [Call_clCreateCommandQueue (context_cl g1) (device_id g1)]
            in if snd q \<noteq> CL_SUCCESS then
                 (AVERROR_EXTERNAL, g2, ev2 @ [Av_log (Could_not_create_command_queue (snd q))])
               else (RET_OK, g2, ev2)))"

definition discover_env :: "cl_runtime \<Rightarrow> GPUEnv \<Rightarrow> (av_ret \<times> GPUEnv \<times> event list) option" where
  "discover_env rt g =
     (case load_device_list rt g of (r1, g1, ev1) \<Rightarrow>
        if r1 \<noteq> RET_OK then Some (r1, g1, ev1)
        else (case select_platform g1 of (r2, g2, ev2) \<Rightarrow>
          if r2 \<noteq> RET_OK then Some (r2, g2, ev1 @ ev2)
          else if platform_id g2 = 0 then
            Some (AVERROR_EXTERNAL, g2, ev1 @ ev2 @ [Av_log Could_not_get_platforms])
          else (case select_device g2 of
              None \<Rightarrow> None
            | Some (r3, g3, ev3) \<Rightarrow>
                if r3 \<noteq> RET_OK then Some (r3, g3, ev1 @ ev2 @ ev3)
                else (case create_context_and_queue rt g3 of (r4, g4, ev4) \<Rightarrow>
                  Some (r4, g4, ev1 @ ev2 @ ev3 @ ev4)))))"

text \<open>
  \<^verbatim>\<open>init_opencl_env\<close>: with an external environment the handles are adopted, unless
  one was adopted before; without one the environment is discovered and created, unless
  one was adopted before.
\<close>

definition init_opencl_env ::
  "cl_runtime \<Rightarrow> AVOpenCLExternalEnv option \<Rightarrow> GPUEnv \<Rightarrow> (av_ret \<times> GPUEnv \<times> event list) option" where
  "init_opencl_env rt ext_opencl_env g =
     (case ext_opencl_env of
        Some e \<Rightarrow>
          if is_user_created g then Some (RET_OK, g, [])
          else
            Some (RET_OK,
                  g\<lparr>platform_id := ext_platform_id e,
                    is_user_created := True,
                    command_queue := ext_command_queue e,
                    context_cl := ext_context e,
                    device_id := ext_device_id e,
                    device_type := ext_device_type e\<rparr>,
                  [])
      | None \<Rightarrow>
          if \<not> is_user_created g then discover_env rt g
          else Some (RET_OK, g, []))"

subsection \<open>Compiling the registered source\<close>

text \<open>
  The indices of the entries not yet compiled, in registration order, and their texts.
  \<open>text_at\<close> is the caller's memory: the C string a source pointer points to. Every
  registered pointer is taken to point to a string; \<^verbatim>\<open>strlen\<close> of a null or dangling
  pointer is outside the model.
\<close>

definition uncompiled :: "GPUEnv \<Rightarrow> nat list" where
  "uncompiled g = filter (\<lambda>i. \<not> is_compiled (kernel_code g i)) [0 ..< kernel_code_count g]"

definition uncompiled_texts :: "(handle \<Rightarrow> string) \<Rightarrow> GPUEnv \<Rightarrow> string list" where
  "uncompiled_texts text_at g = map (\<lambda>i. text_at (kernel_string (kernel_code g i))) (uncompiled g)"

text \<open>The second loop marks every entry it copies.\<close>

definition mark_compiled :: "GPUEnv \<Rightarrow> GPUEnv" where
  "mark_compiled g =
     g\<lparr>kernel_code := (\<lambda>i. if i < kernel_code_count g \<and> \<not> is_compiled (kernel_code g i)
                            then (kernel_code g i)\<lparr>is_compiled := True\<rparr>
                            else kernel_code g i)\<rparr>"

text \<open>
  \<^verbatim>\<open>compile_kernel_file\<close>. The new program is stored at \<^verbatim>\<open>programs[program_count]\<close>
  before its status is looked at; \<^verbatim>\<open>program_count\<close> moves only after a successful
  build.
\<close>

definition compile_kernel_file ::
  "cl_runtime \<Rightarrow> (handle \<Rightarrow> string) \<Rightarrow> string option \<Rightarrow> GPUEnv \<Rightarrow> av_ret \<times> GPUEnv \<times> event list" where
  "compile_kernel_file rt text_at build_opts g =
     (let source_str_len = sum_list (map length (uncompiled_texts text_at g))
      in if source_str_len = 0 then (RET_OK, g, [])
         else if \<not> av_mallocz_ok rt (source_str_len + 1) then (AVERROR_ENOMEM, g, [])
         else
           (let source_str = concat (uncompiled_texts text_at g);
                g1 = mark_compiled g;
                p = clCreateProgramWithSource rt (context_cl g1) source_str;
                g2 = g1\<lparr>programs := (programs g1)(program_count g1 := fst p)\<rparr>;
                ev1 = [Call_clCreateProgramWithSource (context_cl g1) source_str]
            in if snd p \<noteq> CL_SUCCESS then
                 (AVERROR_EXTERNAL, g2, ev1 @ [Av_log (Could_not_create_program (snd p))])
               else if fst p = 0 then
                 (AVERROR_EXTERNAL, g2, ev1 @ [Av_log Created_program_is_NULL])
               else
                 (let b = clBuildProgram rt (fst p) (device_id g2) build_opts;
                      ev2 = ev1 @ [Call_clBuildProgram (fst p) (device_id g2) build_opts]
                  in if b \<noteq> CL_SUCCESS then
                       (AVERROR_EXTERNAL, g2, ev2 @ [Av_log (Could_not_compile_kernel b)])
                     else (RET_OK, g2\<lparr>program_count := program_count g2 + 1\<rparr>, ev2))))"

subsection \<open>Init and Uninit\<close>

text \<open>
  \<^verbatim>\<open>av_opencl_init\<close>. The environment is created only when \<^verbatim>\<open>init_count\<close> is 0; the
  compile pass runs on every call; the count moves only on success.
\<close>

definition compile_and_count ::
  "cl_runtime \<Rightarrow> (handle \<Rightarrow> string) \<Rightarrow> OpenclUtils \<Rightarrow> GPUEnv \<Rightarrow> event list \<Rightarrow>
   av_ret \<times> OpenclUtils \<times> GPUEnv \<times> event list" where
  "compile_and_count rt text_at u g ev =
     (case compile_kernel_file rt text_at (build_options u) g of (ret, g1, ev1) \<Rightarrow>
        if ret \<noteq> RET_OK then (ret, u, g1, ev @ ev1)
        else if kernel_code_count g1 \<le> 0 then
          (AVERROR_EINVAL, u, g1, ev @ ev1 @ [Av_log No_kernel_code_registered])
        else (RET_OK, u, g1\<lparr>init_count := init_count g1 + 1\<rparr>, ev @ ev1))"

definition av_opencl_init ::
  "cl_runtime \<Rightarrow> (handle \<Rightarrow> string) \<Rightarrow> OpenclUtils \<Rightarrow> AVOpenCLExternalEnv option \<Rightarrow> GPUEnv \<Rightarrow>
   (av_ret \<times> OpenclUtils \<times> GPUEnv \<times> event list) option" where
  "av_opencl_init rt text_at u ext_opencl_env g =
     (if init_count g = 0 then
        (let u1 = (if \<not> init_flag u then (av_opt_set_defaults u)\<lparr>init_flag := True\<rparr> else u);
             g0 = g\<lparr>device_idx := u_device_idx u1, platform_idx := u_platform_idx u1\<rparr>
         in case init_opencl_env rt ext_opencl_env g0 of
              None \<Rightarrow> None
            | Some (ret, g1, ev1) \<Rightarrow>
                if ret \<noteq> RET_OK then Some (ret, u1, g1, ev1)
                else Some (compile_and_count rt text_at u1 g1 ev1))
      else Some (compile_and_count rt text_at u g []))"

text \<open>The teardown of \<^verbatim>\<open>av_opencl_uninit\<close>: programs, queue, context, device list.\<close>

definition release_programs :: "cl_runtime \<Rightarrow> GPUEnv \<Rightarrow> GPUEnv \<times> event list" where
  "release_programs rt g =
     (g\<lparr>programs := (\<lambda>i. if i < program_count g then 0 else programs g i)\<rparr>,
      concat (map (\<lambda>i. if programs g i \<noteq> 0 then
                          Call_clReleaseProgram (programs g i) #
                            (if clReleaseProgram rt (programs g i) \<noteq> CL_SUCCESS
                             then [Av_log (Could_not_release_program
                                             (clReleaseProgram rt (programs g i)))]
                             else [])
                        else [])
                [0 ..< program_count g]))"

definition release_command_queue :: "cl_runtime \<Rightarrow> GPUEnv \<Rightarrow> GPUEnv \<times> event list" where
  "release_command_queue rt g =
     (if command_queue g \<noteq> 0 then
        (g\<lparr>command_queue := 0\<rparr>,
         Call_clReleaseCommandQueue (command_queue g) #
           (if clReleaseCommandQueue rt (command_queue g) \<noteq> CL_SUCCESS
            then [Av_log (Could_not_release_command_queue
                            (clReleaseCommandQueue rt (command_queue g)))]
            else []))
      else (g, []))"

definition release_context :: "cl_runtime \<Rightarrow> GPUEnv \<Rightarrow> GPUEnv \<times> event list" where
  "release_context rt g =
     (if context_cl g \<noteq> 0 then
        (g\<lparr>context_cl := 0\<rparr>,
         Call_clReleaseContext (context_cl g) #
           (if clReleaseContext rt (context_cl g) \<noteq> CL_SUCCESS
            then [Av_log (Could_not_release_context (clReleaseContext rt (context_cl g)))]
            else []))
      else (g, []))"

definition teardown :: "cl_runtime \<Rightarrow> GPUEnv \<Rightarrow> GPUEnv \<times> event list" where
  "teardown rt g =
     (case release_programs rt g of (g1, ev1) \<Rightarrow>
      case release_command_queue rt g1 of (g2, ev2) \<Rightarrow>
      case release_context rt g2 of (g3, ev3) \<Rightarrow>
        (g3\<lparr>device_list := []\<rparr>, ev1 @ ev2 @ ev3 @ [Call_free_device_list]))"

text \<open>
  \<^verbatim>\<open>av_opencl_uninit\<close>: the count is decremented first, whatever its value, and the
  tests that follow read it as a signed number; the two
  \<^verbatim>\<open>goto end\<close> skip the teardown; at \<^verbatim>\<open>end\<close> the options are freed when nothing is
  counted any more.
\<close>

definition av_opencl_uninit :: "cl_runtime \<Rightarrow> GPUEnv \<Rightarrow> GPUEnv \<times> event list" where
  "av_opencl_uninit rt g0 =
     (let g = g0\<lparr>init_count := init_count g0 - 1\<rparr>;
          r = (if is_user_created g then (g, [])
               else if sint (init_count g) > 0 \<or> kernel_count g > 0 then (g, [])
               else teardown rt g)
      in (fst r,
          snd r @ (if sint (init_count (fst r)) \<le> 0 \<and> kernel_count (fst r) \<le> 0
                   then [Call_av_opt_free] else [])))"

subsection \<open>Buffers\<close>

text \<open>
  \<^verbatim>\<open>av_opencl_buffer_release\<close>. The argument is a pointer to the caller's \<^verbatim>\<open>cl_mem\<close>:
  \<open>None\<close> is the null pointer, \<open>Some h\<close> points to the handle \<open>h\<close>. The only test is
  the one of the pointer.
\<close>

definition av_opencl_buffer_release :: "cl_runtime \<Rightarrow> handle option \<Rightarrow> handle option \<times> event list" where
  "av_opencl_buffer_release rt cl_buf =
     (case cl_buf of
        None \<Rightarrow> (None, [])
      | Some h \<Rightarrow>
          (Some 0,
           Call_clReleaseMemObject h #
             (if clReleaseMemObject rt h \<noteq> CL_SUCCESS
              then [Av_log (Could_not_release_buffer (clReleaseMemObject rt h))]
              else [])))"

text \<open>
  \<^verbatim>\<open>av_opencl_buffer_write_image\<close>. An \<^verbatim>\<open>int\<close> is a 32-bit word read as signed, a
  \<^verbatim>\<open>size_t\<close> a 64-bit word read as unsigned (an LP64 target); \<open>scast\<close> is the
  conversion of an \<^verbatim>\<open>int\<close> to \<^verbatim>\<open>size_t\<close>, and the addition of two \<^verbatim>\<open>int\<close> wraps. The
  arrays \<^verbatim>\<open>plane_size\<close> and \<^verbatim>\<open>src_data\<close> are functions of the index.

  First the sum of the plane sizes, in an \<^verbatim>\<open>int\<close>.
\<close>

definition sum_plane_size :: "(nat \<Rightarrow> 32 word) \<Rightarrow> nat \<Rightarrow> 32 word" where
  "sum_plane_size plane_size n = fold (\<lambda>i buffer_size. buffer_size + plane_size i) [0 ..< n] 0"

text \<open>
  The copy loop: each plane is copied to \<^verbatim>\<open>temp\<close>, which starts \<^verbatim>\<open>dst_cl_offset\<close> bytes
  into the mapped region and moves on by the size of the plane. \<open>off\<close> is the distance
  of \<^verbatim>\<open>temp\<close> from the mapped pointer.
\<close>

fun copy_planes :: "(nat \<Rightarrow> handle) \<Rightarrow> (nat \<Rightarrow> 32 word) \<Rightarrow> int \<Rightarrow> nat list \<Rightarrow> event list" where
  "copy_planes src_data plane_size off [] = []"
| "copy_planes src_data plane_size off (i # is) =
     Call_memcpy_to_mapped off (src_data i) (scast (plane_size i)) #
       copy_planes src_data plane_size (off + sint (plane_size i)) is"

definition av_opencl_buffer_write_image ::
  "cl_runtime \<Rightarrow> GPUEnv \<Rightarrow> handle \<Rightarrow> 64 word \<Rightarrow> 32 word \<Rightarrow> (nat \<Rightarrow> handle) \<Rightarrow> (nat \<Rightarrow> 32 word) \<Rightarrow>
   32 word \<Rightarrow> av_ret \<times> event list" where
  "av_opencl_buffer_write_image rt g dst_cl_buf cl_buffer_size dst_cl_offset src_data plane_size
       plane_num =
     (if plane_num > 8 then (AVERROR_EINVAL, [])
      else
        (let buffer_size = sum_plane_size plane_size (unat plane_num)
         in if (scast buffer_size :: 64 word) > cl_buffer_size then
              (AVERROR_EINVAL, [Av_log Buffer_too_small])
            else
              (let map_size = (scast (buffer_size + dst_cl_offset) :: 64 word);
                   m = clEnqueueMapBuffer rt (command_queue g) dst_cl_buf map_size;
                   ev1 = [Call_clEnqueueMapBuffer (command_queue g) dst_cl_buf map_size]
               in if snd m \<noteq> CL_SUCCESS then
                    (AVERROR_EXTERNAL, ev1 @ [Av_log (Could_not_map_buffer (snd m))])
                  else
                    (let ev2 = ev1 @ copy_planes src_data plane_size (sint dst_cl_offset)
                                       [0 ..< unat plane_num]
                                   @ [Call_clEnqueueUnmapMemObject (command_queue g) dst_cl_buf];
                         status = clEnqueueUnmapMemObject rt (command_queue g) dst_cl_buf (fst m)
                     in if status \<noteq> CL_SUCCESS then
                          (AVERROR_EXTERNAL, ev2 @ [Av_log (Could_not_unmap_buffer status)])
                        else (RET_OK, ev2)))))"

subsection \<open>Sequences of calls\<close>

text \<open>
  One call of the interface on the environment, with everything the caller and the
  runtime supply to it. The option store can be changed between calls through
  \<^verbatim>\<open>av_opencl_set_option\<close>, and a kernel handle is the caller's, so both are arguments
  of the call.
\<close>

datatype op =
    Init cl_runtime "handle \<Rightarrow> string" OpenclUtils "AVOpenCLExternalEnv option"
  | Uninit cl_runtime
  | RegisterSource handle
  | CreateKernel nat cl_runtime AVOpenCLKernelEnv string
  | ReleaseKernel cl_runtime AVOpenCLKernelEnv

text \<open>
  The environment after the call and what the call did; \<open>None\<close> when the call reads
  outside the device list.
\<close>

fun step :: "op \<Rightarrow> GPUEnv \<Rightarrow> (GPUEnv \<times> event list) option" where
  "step (Init rt text_at u ext) g =
     (case av_opencl_init rt text_at u ext g of
        None \<Rightarrow> None
      | Some (ret, u1, g1, ev) \<Rightarrow> Some (g1, ev))"
| "step (Uninit rt) g = Some (av_opencl_uninit rt g)"
| "step (RegisterSource p) g =
     (case av_opencl_register_kernel_code p g of (ret, g1, ev) \<Rightarrow> Some (g1, ev))"
| "step (CreateKernel max_name_size rt env name) g =
     (case av_opencl_create_kernel max_name_size rt env name g of
        (ret, env1, g1, ev) \<Rightarrow> Some (g1, ev))"
| "step (ReleaseKernel rt env) g =
     (case av_opencl_release_kernel rt env g of (env1, g1, ev) \<Rightarrow> Some (g1, ev))"

fun run :: "op list \<Rightarrow> GPUEnv \<Rightarrow> (GPUEnv \<times> event list) option" where
  "run [] g = Some (g, [])"
| "run (c # cs) g =
     (case step c g of
        None \<Rightarrow> None
      | Some (g1, ev1) \<Rightarrow>
          (case run cs g1 of
             None \<Rightarrow> None
           | Some (g2, ev2) \<Rightarrow> Some (g2, ev1 @ ev2)))"

text \<open>
  The calls that release what the teardown releases: a program, the command queue, the
  context, the cached device list.
\<close>

fun is_teardown_release :: "event \<Rightarrow> bool" where
  "is_teardown_release (Call_clReleaseProgram h) = True"
| "is_teardown_release (Call_clReleaseCommandQueue h) = True"
| "is_teardown_release (Call_clReleaseContext h) = True"
| "is_teardown_release Call_free_device_list = True"
| "is_teardown_release e = False"

text \<open>The calls that discover devices or create the context and the queue.\<close>

fun is_env_creation :: "event \<Rightarrow> bool" where
  "is_env_creation Call_get_device_list = True"
| "is_env_creation (Call_clCreateContextFromType h t) = True"
| "is_env_creation (Call_clCreateCommandQueue h d) = True"
| "is_env_creation e = False"

text \<open>The objects a call hands to a release function of the runtime: the handles that are not null.\<close>

fun released_object :: "event \<Rightarrow> handle option" where
  "released_object (Call_clReleaseKernel h) = (if h = 0 then None else Some h)"
| "released_object (Call_clReleaseProgram h) = (if h = 0 then None else Some h)"
| "released_object (Call_clReleaseCommandQueue h) = (if h = 0 then None else Some h)"
| "released_object (Call_clReleaseContext h) = (if h = 0 then None else Some h)"
| "released_object (Call_clReleaseMemObject h) = (if h = 0 then None else Some h)"
| "released_object e = None"

definition released_objects :: "event list \<Rightarrow> handle list" where
  "released_objects evs = List.map_filter released_object evs"

subsection \<open>Notions used in the statements\<close>

text \<open>What the creation of the environment leaves alone: the counters and the two tables.\<close>

definition kept :: "GPUEnv \<Rightarrow> GPUEnv \<Rightarrow> bool" where
  "kept g g1 \<longleftrightarrow>
     init_count g1 = init_count g \<and> kernel_count g1 = kernel_count g \<and>
     is_user_created g1 = is_user_created g \<and> kernel_code g1 = kernel_code g \<and>
     kernel_code_count g1 = kernel_code_count g \<and> program_count g1 = program_count g \<and>
     programs g1 = programs g"

text \<open>The adopted environment is still there: the flag is set and the handles are the same.\<close>

definition adopted_kept :: "GPUEnv \<Rightarrow> GPUEnv \<Rightarrow> bool" where
  "adopted_kept g g1 \<longleftrightarrow>
     is_user_created g1 \<and> platform_id g1 = platform_id g \<and> device_id g1 = device_id g \<and>
     device_type g1 = device_type g \<and> context_cl g1 = context_cl g \<and>
     command_queue g1 = command_queue g"

text \<open>A trace with no discovery, no creation of context or queue, and no teardown.\<close>

definition quiet :: "event list \<Rightarrow> bool" where
  "quiet ev \<longleftrightarrow> filter is_env_creation ev = [] \<and> filter is_teardown_release ev = []"

text \<open>
  The first \<open>n\<close> entries of the source table are marked compiled and still hold the
  source pointers of the table \<open>kc\<close>.
\<close>

definition compiled_below :: "nat \<Rightarrow> (nat \<Rightarrow> KernelCode) \<Rightarrow> GPUEnv \<Rightarrow> bool" where
  "compiled_below n kc g \<longleftrightarrow>
     n \<le> kernel_code_count g \<and>
     list_all (\<lambda>i. is_compiled (kernel_code g i) \<and>
                    kernel_string (kernel_code g i) = kernel_string (kc i)) [0 ..< n]"

text \<open>The largest \<^verbatim>\<open>int\<close>.\<close>

definition INT_MAX :: nat where
  "INT_MAX = 2147483647"

text \<open>
  A sequence of calls in which every Uninit is matched by an earlier successful Init and
  the successful Init calls not yet undone never number more than \<^verbatim>\<open>INT_MAX\<close>: \<open>b\<close>
  counts them, an Uninit is made only while \<open>b\<close> is positive, and an Init succeeds
  only while \<open>b\<close> is below \<^verbatim>\<open>INT_MAX\<close>.
\<close>

fun matched :: "nat \<Rightarrow> op list \<Rightarrow> GPUEnv \<Rightarrow> bool" where
  "matched b [] g = True"
| "matched b (Init rt text_at u ext # cs) g =
     (case av_opencl_init rt text_at u ext g of
        None \<Rightarrow> True
      | Some (ret, u1, g1, ev) \<Rightarrow>
          if ret = RET_OK then b < INT_MAX \<and> matched (Suc b) cs g1 else matched b cs g1)"
| "matched b (Uninit rt # cs) g = (0 < b \<and> matched (b - 1) cs (fst (av_opencl_uninit rt g)))"
| "matched b (RegisterSource p # cs) g =
     (case step (RegisterSource p) g of
        None \<Rightarrow> True
      | Some (g1, ev) \<Rightarrow> matched b cs g1)"
| "matched b (CreateKernel max_name_size rt env name # cs) g =
     (case step (CreateKernel max_name_size rt env name) g of
        None \<Rightarrow> True
      | Some (g1, ev) \<Rightarrow> matched b cs g1)"
| "matched b (ReleaseKernel rt env # cs) g =
     (case step (ReleaseKernel rt env) g of
        None \<Rightarrow> True
      | Some (g1, ev) \<Rightarrow> matched b cs g1)"

text \<open>
  The number of entries marked compiled, and the bounds that keep the two tables inside
  their arrays of \<^verbatim>\<open>MAX_KERNEL_CODE_NUM\<close> entries: the source table is not over-full, and
  there are no more programs than compiled entries.
\<close>

definition compiled_count :: "GPUEnv \<Rightarrow> nat" where
  "compiled_count g = length (filter (\<lambda>i. is_compiled (kernel_code g i)) [0 ..< kernel_code_count g])"

definition tables_bounded :: "GPUEnv \<Rightarrow> bool" where
  "tables_bounded g \<longleftrightarrow>
     kernel_code_count g \<le> MAX_KERNEL_CODE_NUM \<and> program_count g \<le> compiled_count g"

subsection \<open>Concrete runtimes and environments\<close>

text \<open>
  A runtime in which every call succeeds and one platform with one device is found, and
  one in which the build of a program fails with \<^verbatim>\<open>CL_BUILD_PROGRAM_FAILURE\<close>.
\<close>

definition runtime_ok :: cl_runtime where
  "runtime_ok =
     \<lparr>clCreateContextFromType = (\<lambda>p t. (11, CL_SUCCESS)),
      clCreateCommandQueue = (\<lambda>c d. (12, CL_SUCCESS)),
      clCreateProgramWithSource = (\<lambda>c s. (13, CL_SUCCESS)),
      clBuildProgram = (\<lambda>p d b. CL_SUCCESS),
      clCreateKernel = (\<lambda>p n. (14, CL_SUCCESS)),
      clReleaseKernel = (\<lambda>h. CL_SUCCESS),
      clReleaseProgram = (\<lambda>h. CL_SUCCESS),
      clReleaseCommandQueue = (\<lambda>h. CL_SUCCESS),
      clReleaseContext = (\<lambda>h. CL_SUCCESS),
      clReleaseMemObject = (\<lambda>h. CL_SUCCESS),
      clEnqueueMapBuffer = (\<lambda>q b n. (15, CL_SUCCESS)),
      clEnqueueUnmapMemObject = (\<lambda>q b m. CL_SUCCESS),
      av_mallocz_ok = (\<lambda>n. True),
      get_device_list =
        (RET_OK,
         [\<lparr>pn_platform_id = 21, pn_platform_name = ''vendor'',
           pn_device_node =
             [\<lparr>dn_device_type = 4, dn_device_name = ''gpu'', dn_device_id = 22\<rparr>]\<rparr>])\<rparr>"

definition runtime_build_fails :: cl_runtime where
  "runtime_build_fails = runtime_ok\<lparr>clBuildProgram := (\<lambda>p d b. - 11)\<rparr>"

text \<open>
  A runtime that answers a release of the null memory object as the OpenCL
  specification says, with \<^verbatim>\<open>CL_INVALID_MEM_OBJECT\<close>.
\<close>

definition runtime_conforming :: cl_runtime where
  "runtime_conforming =
     runtime_ok\<lparr>clReleaseMemObject := (\<lambda>h. if h = 0 then - 38 else CL_SUCCESS)\<rparr>"

text \<open>The static \<^verbatim>\<open>openclutils\<close> before any call, and the texts behind the source pointers.\<close>

definition openclutils_zero :: OpenclUtils where
  "openclutils_zero =
     \<lparr>init_flag = False, u_platform_idx = 0, u_device_idx = 0, build_options = None\<rparr>"

definition source_text :: "handle \<Rightarrow> string" where
  "source_text p = (if p = 1 then ''kernel_a'' else ''kernel_b'')"

definition ext_example :: AVOpenCLExternalEnv where
  "ext_example =
     \<lparr>ext_platform_id = 31, ext_device_type = 4, ext_context = 32, ext_device_id = 33,
      ext_command_queue = 34\<rparr>"

text \<open>
  The environment after one source was registered and Init was called once, with the
  external environment \<open>ext_example\<close> and with none.
\<close>

definition env_adopted :: GPUEnv where
  "env_adopted =
     fst (the (run [RegisterSource 1,
                    Init runtime_ok source_text openclutils_zero (Some ext_example)]
                 gpu_env_zero))"

definition env_self_owned :: GPUEnv where
  "env_self_owned =
     fst (the (run [RegisterSource 1, Init runtime_ok source_text openclutils_zero None]
                 gpu_env_zero))"





text \<open>The environment after the sources \<open>1, \<dots>, n\<close> were registered, in this order.\<close>

definition table_of :: "nat \<Rightarrow> GPUEnv" where
  "table_of n =
     gpu_env_zero\<lparr>kernel_code_count := n,
       kernel_code := (\<lambda>i. if i < n then \<lparr>is_compiled = False, kernel_string = Suc i\<rparr>
                            else \<lparr>is_compiled = False, kernel_string = 0\<rparr>)\<rparr>"

section \<open>Properties\<close>

subsection \<open>The error translator\<close>

declare opencl_errstr_from.simps [simp del]

lemma length_opencl_err_msg: "length opencl_err_msg = 58"
  by (simp add: opencl_err_msg_def)

text \<open>
  A status that no entry of the table carries is compared with every entry; when the
  loop bound is larger than the table, the next read is past its end.
\<close>

lemma opencl_errstr_from_absent:
  "status \<notin> fst ` set tbl \<Longrightarrow> i \<le> length tbl \<Longrightarrow> length tbl < bound \<Longrightarrow>
   opencl_errstr_from i bound tbl status = Read_past_table (length tbl)"
proof (induction i bound tbl status rule: opencl_errstr_from.induct)
  case (1 i bound tbl status)
  show ?case
  proof (cases "i < length tbl")
    case True
    then have ne: "fst (tbl ! i) \<noteq> status"
      using "1.prems"(1) by (metis image_eqI nth_mem)
    have "opencl_errstr_from (Suc i) bound tbl status = Read_past_table (length tbl)"
      using "1.IH" True ne "1.prems" by simp
    then show ?thesis
      using True ne "1.prems" by (subst opencl_errstr_from.simps) simp
  next
    case False
    then have "i = length tbl" using "1.prems" by simp
    then show ?thesis using "1.prems" by (subst opencl_errstr_from.simps) simp
  qed
qed

text \<open>
  A status that an entry carries is found at that entry, whatever the size of an entry:
  the codes of the table are distinct and the search stops before the end of the table.
\<close>

lemma opencl_errstr_from_present:
  "i \<le> j \<Longrightarrow> j < length tbl \<Longrightarrow> j < bound \<Longrightarrow> fst (tbl ! j) = status \<Longrightarrow>
   (\<forall>k. i \<le> k \<and> k < j \<longrightarrow> fst (tbl ! k) \<noteq> status) \<Longrightarrow>
   opencl_errstr_from i bound tbl status = Str (snd (tbl ! j))"
proof (induction i bound tbl status rule: opencl_errstr_from.induct)
  case (1 i bound tbl status)
  show ?case
  proof (cases "i = j")
    case True
    then show ?thesis using "1.prems" by (subst opencl_errstr_from.simps) simp
  next
    case False
    then have lt: "i < j" using "1.prems" by simp
    then have ne: "fst (tbl ! i) \<noteq> status" using "1.prems" by simp
    have "opencl_errstr_from (Suc i) bound tbl status = Str (snd (tbl ! j))"
      using "1.IH" lt ne "1.prems" by simp
    then show ?thesis using lt ne "1.prems" by (subst opencl_errstr_from.simps) simp
  qed
qed

lemma distinct_codes: "distinct (map fst opencl_err_msg)"
  by (simp add: opencl_err_msg_def)

lemma opencl_errstr_known_code:
  assumes "j < length opencl_err_msg" "0 < sizeof_elem"
  shows "opencl_errstr sizeof_elem (fst (opencl_err_msg ! j)) = Str (snd (opencl_err_msg ! j))"
proof -
  have b: "j < sizeof_opencl_err_msg sizeof_elem"
    using assms by (simp add: sizeof_opencl_err_msg_def) (metis One_nat_def Suc_leI mult.right_neutral mult_le_mono2 order_less_le_trans)
  have d: "\<forall>k. 0 \<le> k \<and> k < j \<longrightarrow> fst (opencl_err_msg ! k) \<noteq> fst (opencl_err_msg ! j)"
  proof (intro allI impI)
    fix k assume "0 \<le> k \<and> k < j"
    then have kj: "k < length (map fst opencl_err_msg)" "j < length (map fst opencl_err_msg)"
      "k \<noteq> j"
      using assms(1) by simp_all
    have "map fst opencl_err_msg ! k \<noteq> map fst opencl_err_msg ! j"
      using nth_eq_iff_index_eq [OF distinct_codes kj(1,2)] kj(3) by blast
    then show "fst (opencl_err_msg ! k) \<noteq> fst (opencl_err_msg ! j)"
      using kj(1,2) by simp
  qed
  show ?thesis
    unfolding opencl_errstr_def
    by (rule opencl_errstr_from_present [OF _ assms(1) b refl d]) simp
qed

lemma platform_not_found_khr_absent: "- 1001 \<notin> fst ` set opencl_err_msg"
  by (simp add: opencl_err_msg_def)

text \<open>
  C3 (the error translator returns "unknown error" for a status that is not in its
  table). The loop bound is the size of the table in bytes, not its number of entries.
  For the status \<open>-1001\<close> (\<^verbatim>\<open>CL_PLATFORM_NOT_FOUND_KHR\<close>, which is not in the table) the
  loop passes the 58 entries and then reads \<^verbatim>\<open>opencl_err_msg[58]\<close>, past the end of the
  table, instead of returning "unknown error"; so it does with 16-byte and with 8-byte
  entries.
\<close>

theorem opencl_errstr_unknown_code_reads_past_table:
  "opencl_errstr 16 (- 1001) = Read_past_table 58 \<and>
   opencl_errstr 8 (- 1001) = Read_past_table 58"
  using opencl_errstr_from_absent [OF platform_not_found_khr_absent, of 0 "sizeof_opencl_err_msg 16"]
        opencl_errstr_from_absent [OF platform_not_found_khr_absent, of 0 "sizeof_opencl_err_msg 8"]
  by (simp add: opencl_errstr_def sizeof_opencl_err_msg_def length_opencl_err_msg)

subsection \<open>Evaluation of the concrete environments\<close>

lemmas eval_defs =
  gpu_env_zero_def runtime_ok_def runtime_build_fails_def openclutils_zero_def source_text_def
  ext_example_def av_opencl_register_kernel_code_def MAX_KERNEL_CODE_NUM_def
  av_opencl_init_def Let_def av_opt_set_defaults_def init_opencl_env_def discover_env_def
  load_device_list_def platform_num_def select_platform_def pn_device_num_def
  select_device_def read_device_node_def create_context_and_queue_def CL_SUCCESS_def
  compile_and_count_def compile_kernel_file_def uncompiled_texts_def uncompiled_def
  mark_compiled_def av_opencl_uninit_def teardown_def release_programs_def
  release_command_queue_def release_context_def

lemma env_adopted_fields:
  "is_user_created env_adopted \<and> init_count env_adopted = 1 \<and> kernel_count env_adopted = 0 \<and>
   context_cl env_adopted = 32 \<and> command_queue env_adopted = 34 \<and>
   platform_id env_adopted = 31 \<and> device_id env_adopted = 33 \<and>
   device_type env_adopted = 4 \<and> program_count env_adopted = 1 \<and>
   programs env_adopted 0 = 13"
  by (simp add: env_adopted_def eval_defs)


subsection \<open>Sequences of calls\<close>

lemma run_append:
  "run (cs @ ds) g =
     (case run cs g of
        None \<Rightarrow> None
      | Some (g1, ev1) \<Rightarrow>
          (case run ds g1 of None \<Rightarrow> None | Some (g2, ev2) \<Rightarrow> Some (g2, ev1 @ ev2)))"
  by (induction cs arbitrary: g) (auto split: option.splits)

subsection \<open>What the creation of the environment leaves alone\<close>

lemma load_device_list_kept: "load_device_list rt g = (r, g1, ev) \<Longrightarrow> kept g g1"
  by (auto simp: load_device_list_def kept_def split: if_splits)

lemma select_platform_kept: "select_platform g = (r, g1, ev) \<Longrightarrow> kept g g1"
  by (auto simp: select_platform_def kept_def split: if_splits option.splits)

lemma read_device_node_kept: "read_device_node g = Some (r, g1, ev) \<Longrightarrow> kept g g1"
  by (auto simp: read_device_node_def kept_def Let_def split: if_splits)

lemma select_device_kept: "select_device g = Some (r, g1, ev) \<Longrightarrow> kept g g1"
  by (auto simp: select_device_def kept_def split: if_splits dest!: read_device_node_kept)

lemma create_context_and_queue_kept:
  "create_context_and_queue rt g = (r, g1, ev) \<Longrightarrow> kept g g1"
  by (auto simp: create_context_and_queue_def kept_def Let_def split: if_splits)

lemma kept_trans: "kept a b \<Longrightarrow> kept b c \<Longrightarrow> kept a c"
  by (simp add: kept_def)

lemma discover_env_kept: "discover_env rt g = Some (r, g1, ev) \<Longrightarrow> kept g g1"
  unfolding discover_env_def
  by (auto split: prod.splits if_splits option.splits
      dest!: load_device_list_kept select_platform_kept select_device_kept
        create_context_and_queue_kept intro: kept_trans)

lemma init_opencl_env_kept:
  "init_opencl_env rt ext g = Some (r, g1, ev) \<Longrightarrow>
     init_count g1 = init_count g \<and> kernel_count g1 = kernel_count g \<and>
     kernel_code g1 = kernel_code g \<and>
     kernel_code_count g1 = kernel_code_count g \<and> program_count g1 = program_count g \<and>
     programs g1 = programs g"
  unfolding init_opencl_env_def
  by (auto split: option.splits if_splits dest!: discover_env_kept simp: kept_def)

lemma compile_kernel_file_counts:
  "compile_kernel_file rt text_at bo g = (r, g1, ev) \<Longrightarrow>
     init_count g1 = init_count g \<and> kernel_count g1 = kernel_count g \<and>
     kernel_code_count g1 = kernel_code_count g \<and> is_user_created g1 = is_user_created g \<and>
     platform_id g1 = platform_id g \<and> device_id g1 = device_id g \<and>
     device_type g1 = device_type g \<and> context_cl g1 = context_cl g \<and>
     command_queue g1 = command_queue g \<and> device_list g1 = device_list g"
  by (auto simp: compile_kernel_file_def Let_def mark_compiled_def split: if_splits)

subsection \<open>The reference count\<close>

lemma compile_and_count_init_count:
  "compile_and_count rt text_at u g ev0 = (r, u1, g1, ev) \<Longrightarrow>
   init_count g1 = init_count g + (if r = RET_OK then 1 else 0)"
  by (auto simp: compile_and_count_def split: prod.splits if_splits
      dest!: compile_kernel_file_counts)

lemma av_opencl_init_init_count:
  "av_opencl_init rt text_at u ext g = Some (r, u1, g1, ev) \<Longrightarrow>
   init_count g1 = init_count g + (if r = RET_OK then 1 else 0)"
  unfolding av_opencl_init_def Let_def
  by (auto split: if_splits option.splits prod.splits
      dest!: compile_and_count_init_count init_opencl_env_kept)

lemma uninit_init_count: "init_count (fst (av_opencl_uninit rt g)) = init_count g - 1"
  by (simp add: av_opencl_uninit_def Let_def teardown_def release_programs_def
      release_command_queue_def release_context_def split: prod.splits)

lemma register_init_count:
  "av_opencl_register_kernel_code p g = (r, g1, ev) \<Longrightarrow> init_count g1 = init_count g"
  by (auto simp: av_opencl_register_kernel_code_def split: if_splits)

lemma create_kernel_init_count:
  "av_opencl_create_kernel m rt env name g = (r, env1, g1, ev) \<Longrightarrow>
   init_count g1 = init_count g"
  by (auto simp: av_opencl_create_kernel_def Let_def split: if_splits)

lemma release_kernel_init_count:
  "av_opencl_release_kernel rt env g = (env1, g1, ev) \<Longrightarrow> init_count g1 = init_count g"
  by (auto simp: av_opencl_release_kernel_def split: if_splits)

subsection \<open>Signed 32-bit arithmetic\<close>



lemma sint_of_nat_32: "n \<le> INT_MAX \<Longrightarrow> sint (of_nat n :: 32 word) = int n"
proof -
  assume a: "n \<le> INT_MAX"
  have "(of_nat n :: 32 word) = word_of_int (int n)" by simp
  then have "sint (of_nat n :: 32 word) = signed_take_bit 31 (int n)"
    by (simp only: sint_sbintrunc') simp
  then show ?thesis using a by (simp add: signed_take_bit_int_eq_self INT_MAX_def)
qed

subsection \<open>Uninit on a self-owned environment\<close>






subsection \<open>Only Uninit tears down\<close>








lemma compile_kernel_file_quiet:
  "compile_kernel_file rt text_at bo g = (r, g1, ev) \<Longrightarrow> quiet ev"
  by (auto simp: compile_kernel_file_def Let_def quiet_def split: if_splits)



lemma create_kernel_loop_quiet: "quiet (snd (create_kernel_loop rt name p ps))"
  by (induction rt name p ps rule: create_kernel_loop.induct) (auto simp: quiet_def)






subsection \<open>Uninit on an adopted environment\<close>

text \<open>
  C2. When the environment was supplied by the caller (\<^verbatim>\<open>is_user_created\<close> is set, which
  an Init with an external environment does on an environment that had none), Uninit
  changes the reference count and no other field, whatever the count is; it calls no
  release function of the runtime and does not free the device list. The only call it
  can make is \<^verbatim>\<open>av_opt_free\<close> on the option store, when nothing is counted any more.
\<close>

theorem uninit_external_releases_nothing:
  "(\<not> is_user_created g0 \<longrightarrow>
      (\<exists>g1. init_opencl_env rt0 (Some e) g0 = Some (RET_OK, g1, []) \<and> is_user_created g1)) \<and>
   (is_user_created g \<longrightarrow>
      av_opencl_uninit rt g =
        (g\<lparr>init_count := init_count g - 1\<rparr>,
         if sint (init_count g - 1) \<le> 0 \<and> kernel_count g \<le> 0 then [Call_av_opt_free]
         else []) \<and>
      filter is_teardown_release (snd (av_opencl_uninit rt g)) = [] \<and>
      released_objects (snd (av_opencl_uninit rt g)) = [])"
  by (simp add: init_opencl_env_def av_opencl_uninit_def Let_def released_objects_def)

text \<open>
  C2, at the environment adopted by a real Init: its Uninit brings the count to 0 and
  keeps the caller's context and queue.
\<close>

theorem uninit_external_releases_nothing_witness:
  "is_user_created env_adopted \<and>
   av_opencl_uninit runtime_ok env_adopted =
     (env_adopted\<lparr>init_count := 0\<rparr>, [Call_av_opt_free]) \<and>
   context_cl (fst (av_opencl_uninit runtime_ok env_adopted)) = 32 \<and>
   command_queue (fst (av_opencl_uninit runtime_ok env_adopted)) = 34 \<and>
   released_objects (snd (av_opencl_uninit runtime_ok env_adopted)) = []"
  using uninit_external_releases_nothing [of gpu_env_zero runtime_ok ext_example env_adopted
      runtime_ok] env_adopted_fields
  by (simp add: released_objects_def)

subsection \<open>Buffers\<close>

text \<open>
  On a null pointer \<^verbatim>\<open>av_opencl_buffer_release\<close> does nothing. On a pointer to a handle
  it calls \<^verbatim>\<open>clReleaseMemObject\<close> on the handle, whatever the handle is, logs an error
  when the runtime answers with one, and clears the handle.
\<close>

lemma buffer_release_null_pointer: "av_opencl_buffer_release rt None = (None, [])"
  by (simp add: av_opencl_buffer_release_def)

lemma buffer_release_handle:
  "av_opencl_buffer_release rt (Some h) =
     (Some 0,
      Call_clReleaseMemObject h #
        (if clReleaseMemObject rt h \<noteq> CL_SUCCESS
         then [Av_log (Could_not_release_buffer (clReleaseMemObject rt h))] else []))"
  by (simp add: av_opencl_buffer_release_def)

text \<open>
  C8 (releasing a buffer through an empty handle is a safe no-op). The function tests
  the pointer to the handle and not the handle. On a pointer to an empty handle, with a
  runtime that answers as the OpenCL specification says, it calls
  \<^verbatim>\<open>clReleaseMemObject\<close> on the null handle and logs the error
  \<^verbatim>\<open>CL_INVALID_MEM_OBJECT\<close> that comes back, before it clears the handle.
\<close>

theorem buffer_release_empty_handle_calls_runtime:
  "av_opencl_buffer_release runtime_conforming (Some 0) =
     (Some 0, [Call_clReleaseMemObject 0, Av_log (Could_not_release_buffer (- 38))])"
  by (simp add: av_opencl_buffer_release_def runtime_conforming_def runtime_ok_def
      CL_SUCCESS_def)

text \<open>
  The sibling \<^verbatim>\<open>av_opencl_release_kernel\<close> tests the handle itself: on an empty handle it
  makes no call and changes nothing.
\<close>

lemma release_kernel_empty_handle:
  "kernel env = 0 \<Longrightarrow> av_opencl_release_kernel rt env g = (env, g, [])"
  by (simp add: av_opencl_release_kernel_def)

lemma write_image_too_many_planes:
  "8 < plane_num \<Longrightarrow>
   av_opencl_buffer_write_image rt g b sz off src ps plane_num = (AVERROR_EINVAL, [])"
  by (simp add: av_opencl_buffer_write_image_def)

lemma write_image_buffer_too_small:
  "plane_num \<le> 8 \<Longrightarrow>
   cl_buffer_size < scast (sum_plane_size plane_size (unat plane_num)) \<Longrightarrow>
   av_opencl_buffer_write_image rt g b cl_buffer_size off src plane_size plane_num =
     (AVERROR_EINVAL, [Av_log Buffer_too_small])"
  by (simp add: av_opencl_buffer_write_image_def Let_def not_less [symmetric])

text \<open>
  C4 (a write whose planes, placed at the destination offset, do not fit the declared
  size of the buffer is rejected before the buffer is mapped). The test compares the
  sum of the plane sizes alone with the declared size. One plane of 10 bytes written at
  offset 5 into a buffer declared 12 bytes long passes it: the call maps 15 bytes,
  copies the plane to the bytes 5 to 14 and returns 0.
\<close>

theorem write_image_offset_not_checked:
  "av_opencl_buffer_write_image runtime_ok g dst_cl_buf 12 5 src_data (\<lambda>i. 10) 1 =
     (RET_OK,
      [Call_clEnqueueMapBuffer (command_queue g) dst_cl_buf 15,
       Call_memcpy_to_mapped 5 (src_data 0) 10,
       Call_clEnqueueUnmapMemObject (command_queue g) dst_cl_buf])"
  by (simp add: av_opencl_buffer_write_image_def sum_plane_size_def runtime_ok_def
      CL_SUCCESS_def Let_def)

subsection \<open>The source table and the kernel count\<close>

lemma table_of_0: "table_of 0 = gpu_env_zero"
  by (simp add: table_of_def gpu_env_zero_def)

lemma register_table_of:
  "n < MAX_KERNEL_CODE_NUM \<Longrightarrow>
   av_opencl_register_kernel_code (Suc n) (table_of n) = (RET_OK, table_of (Suc n), [])"
  by (auto simp: av_opencl_register_kernel_code_def table_of_def list_ex_iff fun_eq_iff)

text \<open>Registering the sources \<open>1, \<dots>, n\<close> from the start gives \<open>table_of n\<close>, up to the capacity.\<close>

lemma run_registers:
  "n \<le> MAX_KERNEL_CODE_NUM \<Longrightarrow>
   run (map RegisterSource [1 ..< Suc n]) gpu_env_zero = Some (table_of n, [])"
proof (induction n)
  case 0
  then show ?case by (simp add: table_of_0)
next
  case (Suc n)
  then have "run (map RegisterSource [1 ..< Suc n]) gpu_env_zero = Some (table_of n, [])"
    by simp
  moreover have "av_opencl_register_kernel_code (Suc n) (table_of n) =
      (RET_OK, table_of (Suc n), [])"
    using Suc.prems by (intro register_table_of) simp
  ultimately show ?case
    by (simp add: run_append)
qed

lemma register_full:
  "MAX_KERNEL_CODE_NUM \<le> kernel_code_count g \<Longrightarrow>
   av_opencl_register_kernel_code p g =
     (AVERROR_EINVAL, g, [Av_log Max_registered_kernel_code_reached])"
  by (simp add: av_opencl_register_kernel_code_def)

lemma register_new:
  "kernel_code_count g < MAX_KERNEL_CODE_NUM \<Longrightarrow>
   \<not> list_ex (\<lambda>i. kernel_string (kernel_code g i) = p) [0 ..< kernel_code_count g] \<Longrightarrow>
   av_opencl_register_kernel_code p g =
     (RET_OK,
      g\<lparr>kernel_code := (kernel_code g)
           (kernel_code_count g := \<lparr>is_compiled = False, kernel_string = p\<rparr>),
        kernel_code_count := kernel_code_count g + 1\<rparr>, [])"
  by (simp add: av_opencl_register_kernel_code_def)

lemma register_present:
  "kernel_code_count g < MAX_KERNEL_CODE_NUM \<Longrightarrow>
   list_ex (\<lambda>i. kernel_string (kernel_code g i) = p) [0 ..< kernel_code_count g] \<Longrightarrow>
   av_opencl_register_kernel_code p g = (RET_OK, g, [Av_log Same_kernel_code_registered])"
  by (simp add: av_opencl_register_kernel_code_def)

lemma register_ok_present:
  "av_opencl_register_kernel_code p g = (RET_OK, g1, ev) \<Longrightarrow>
   list_ex (\<lambda>i. kernel_string (kernel_code g1 i) = p) [0 ..< kernel_code_count g1]"
  by (auto simp: av_opencl_register_kernel_code_def list_ex_iff split: if_splits)

lemma create_kernel_full:
  "MAX_KERNEL_NUM \<le> kernel_count g \<Longrightarrow> kernel env = 0 \<Longrightarrow>
   av_opencl_create_kernel m rt env name g =
     (AVERROR_EINVAL, env, g,
      [Av_log (if length name + 1 > m then Kernel_name_too_long name
               else Max_number_of_kernels_reached name)])"
  by (simp add: av_opencl_create_kernel_def)

lemma create_kernel_below:
  "kernel_count g < MAX_KERNEL_NUM \<Longrightarrow> kernel env = 0 \<Longrightarrow> length name + 1 \<le> m \<Longrightarrow>
   program_count g \<noteq> 0 \<Longrightarrow> snd (clCreateKernel rt (programs g 0) name) = CL_SUCCESS \<Longrightarrow>
   av_opencl_create_kernel m rt env name g =
     (RET_OK,
      env\<lparr>kernel := fst (clCreateKernel rt (programs g 0) name),
          ke_command_queue := command_queue g, kernel_name := av_strlcpy name m\<rparr>,
      g\<lparr>kernel_count := kernel_count g + 1\<rparr>,
      [Call_clCreateKernel (programs g 0) name])"
  by (cases "map (programs g) [1 ..< program_count g]")
     (simp_all add: av_opencl_create_kernel_def Let_def)

text \<open>
  C6. With 200 sources in the table, registering one more fails with
  \<^verbatim>\<open>AVERROR(EINVAL)\<close> and the line "maximum number of registered kernel code already
  reached", and the environment is unchanged; below 200 a source that is not in the
  table is appended, so the failing call is the 201st. With 500 live kernels,
  \<^verbatim>\<open>av_opencl_create_kernel\<close> on an empty handle fails with \<^verbatim>\<open>AVERROR(EINVAL)\<close>, makes no
  runtime call and changes neither the handle nor the environment; for a name of
  admissible length the line logged is "maximum number of kernels already reached".
  Below 500 the creation succeeds when the first program has the kernel, and adds 1 to
  the live count.
\<close>

theorem capacity_limits:
  "(kernel_code_count g = MAX_KERNEL_CODE_NUM \<longrightarrow>
      av_opencl_register_kernel_code p g =
        (AVERROR_EINVAL, g, [Av_log Max_registered_kernel_code_reached])) \<and>
   (kernel_code_count g < MAX_KERNEL_CODE_NUM \<and>
    \<not> list_ex (\<lambda>i. kernel_string (kernel_code g i) = p) [0 ..< kernel_code_count g] \<longrightarrow>
      fst (av_opencl_register_kernel_code p g) = RET_OK \<and>
      kernel_code_count (fst (snd (av_opencl_register_kernel_code p g))) =
        kernel_code_count g + 1) \<and>
   (kernel_count g = MAX_KERNEL_NUM \<and> kernel env = 0 \<longrightarrow>
      fst (av_opencl_create_kernel m rt env name g) = AVERROR_EINVAL \<and>
      fst (snd (av_opencl_create_kernel m rt env name g)) = env \<and>
      fst (snd (snd (av_opencl_create_kernel m rt env name g))) = g \<and>
      (\<exists>msg. snd (snd (snd (av_opencl_create_kernel m rt env name g))) = [Av_log msg])) \<and>
   (kernel_count g = MAX_KERNEL_NUM \<and> kernel env = 0 \<and> length name + 1 \<le> m \<longrightarrow>
      av_opencl_create_kernel m rt env name g =
        (AVERROR_EINVAL, env, g, [Av_log (Max_number_of_kernels_reached name)])) \<and>
   (kernel_count g < MAX_KERNEL_NUM \<and> kernel env = 0 \<and> length name + 1 \<le> m \<and>
    program_count g \<noteq> 0 \<and> snd (clCreateKernel rt (programs g 0) name) = CL_SUCCESS \<longrightarrow>
      fst (av_opencl_create_kernel m rt env name g) = RET_OK \<and>
      kernel_count (fst (snd (snd (av_opencl_create_kernel m rt env name g)))) =
        kernel_count g + 1)"
  using register_full [of g p] register_new [of g p] create_kernel_full [of g env m rt name]
    create_kernel_below [of g env name m rt]
  by auto

text \<open>
  C6, at the table that 200 registrations fill and with 500 live kernels: the 201st
  source and the 501st kernel are refused.
\<close>

theorem capacity_limits_witness:
  "run (map RegisterSource [1 ..< 201]) gpu_env_zero = Some (table_of 200, []) \<and>
   kernel_code_count (table_of 200) = MAX_KERNEL_CODE_NUM \<and>
   av_opencl_register_kernel_code 201 (table_of 200) =
     (AVERROR_EINVAL, table_of 200, [Av_log Max_registered_kernel_code_reached]) \<and>
   kernel_count (env_self_owned\<lparr>kernel_count := 500\<rparr>) = MAX_KERNEL_NUM \<and>
   kernel \<lparr>ke_command_queue = 0, kernel = 0, kernel_name = []\<rparr> = 0 \<and>
   length ''scale'' + 1 \<le> (150 :: nat) \<and>
   av_opencl_create_kernel 150 runtime_ok \<lparr>ke_command_queue = 0, kernel = 0, kernel_name = []\<rparr>
       ''scale'' (env_self_owned\<lparr>kernel_count := 500\<rparr>) =
     (AVERROR_EINVAL, \<lparr>ke_command_queue = 0, kernel = 0, kernel_name = []\<rparr>,
      env_self_owned\<lparr>kernel_count := 500\<rparr>,
      [Av_log (Max_number_of_kernels_reached ''scale'')])"
proof -
  have r: "run (map RegisterSource [1 ..< Suc 200]) gpu_env_zero = Some (table_of 200, [])"
    by (rule run_registers) (simp add: MAX_KERNEL_CODE_NUM_def)
  have k: "kernel_code_count (table_of 200) = MAX_KERNEL_CODE_NUM"
    by (simp add: table_of_def MAX_KERNEL_CODE_NUM_def)
  show ?thesis
    using capacity_limits [of "table_of 200" 201]
      capacity_limits [of "env_self_owned\<lparr>kernel_count := 500\<rparr>" 201
        "\<lparr>ke_command_queue = 0, kernel = 0, kernel_name = []\<rparr>" 150 runtime_ok "''scale''"]
      r k
    by (simp add: MAX_KERNEL_NUM_def)
qed

text \<open>
  C7, as stated, fails when the table is full: the capacity test comes before the scan
  for the same pointer. After the sources 1 to 200 were registered, the source 200 is in
  the table, and registering it a second time returns \<^verbatim>\<open>AVERROR(EINVAL)\<close>.
\<close>

theorem register_twice_full_table_counterexample:
  "run (map RegisterSource [1 ..< 201]) gpu_env_zero = Some (table_of 200, []) \<and>
   list_ex (\<lambda>i. kernel_string (kernel_code (table_of 200) i) = 200)
     [0 ..< kernel_code_count (table_of 200)] \<and>
   av_opencl_register_kernel_code 200 (table_of 200) =
     (AVERROR_EINVAL, table_of 200, [Av_log Max_registered_kernel_code_reached])"
proof -
  have r: "run (map RegisterSource [1 ..< Suc 200]) gpu_env_zero = Some (table_of 200, [])"
    by (rule run_registers) (simp add: MAX_KERNEL_CODE_NUM_def)
  have p: "list_ex (\<lambda>i. kernel_string (kernel_code (table_of 200) i) = 200)
     [0 ..< kernel_code_count (table_of 200)]"
    by (auto simp: list_ex_iff table_of_def intro!: bexI [of _ 199])
  have f: "av_opencl_register_kernel_code 200 (table_of 200) =
     (AVERROR_EINVAL, table_of 200, [Av_log Max_registered_kernel_code_reached])"
    by (rule register_full) (simp add: table_of_def MAX_KERNEL_CODE_NUM_def)
  show ?thesis using r p f by simp
qed

text \<open>
  C7, amended. A successful registration leaves the source in the table. Registering a
  source that is in the table leaves the environment unchanged in every case; it
  returns 0 (with the line "same kernel code has been registered") when the table holds
  fewer than 200 entries, and \<^verbatim>\<open>AVERROR(EINVAL)\<close> when the table is full.
\<close>

theorem register_twice_below_capacity:
  "(fst (av_opencl_register_kernel_code p g0) = RET_OK \<longrightarrow>
      list_ex (\<lambda>i. kernel_string (kernel_code (fst (snd (av_opencl_register_kernel_code p g0))) i) = p)
        [0 ..< kernel_code_count (fst (snd (av_opencl_register_kernel_code p g0)))]) \<and>
   (list_ex (\<lambda>i. kernel_string (kernel_code g i) = p) [0 ..< kernel_code_count g] \<and>
    kernel_code_count g < MAX_KERNEL_CODE_NUM \<longrightarrow>
      av_opencl_register_kernel_code p g = (RET_OK, g, [Av_log Same_kernel_code_registered])) \<and>
   (list_ex (\<lambda>i. kernel_string (kernel_code g i) = p) [0 ..< kernel_code_count g] \<and>
    MAX_KERNEL_CODE_NUM \<le> kernel_code_count g \<longrightarrow>
      av_opencl_register_kernel_code p g =
        (AVERROR_EINVAL, g, [Av_log Max_registered_kernel_code_reached]))"
  using register_ok_present [of p g0] register_present [of g p] register_full [of g p]
  by (metis prod.collapse)

text \<open>C7, amended, at the first source: registered once, then once more.\<close>

theorem register_twice_below_capacity_witness:
  "av_opencl_register_kernel_code 1 gpu_env_zero = (RET_OK, table_of 1, []) \<and>
   list_ex (\<lambda>i. kernel_string (kernel_code (table_of 1) i) = 1)
     [0 ..< kernel_code_count (table_of 1)] \<and>
   kernel_code_count (table_of 1) < MAX_KERNEL_CODE_NUM \<and>
   av_opencl_register_kernel_code 1 (table_of 1) =
     (RET_OK, table_of 1, [Av_log Same_kernel_code_registered])"
proof -
  have a: "av_opencl_register_kernel_code 1 gpu_env_zero = (RET_OK, table_of 1, [])"
    using register_table_of [of 0] by (simp add: table_of_0 MAX_KERNEL_CODE_NUM_def)
  have c: "kernel_code_count (table_of 1) < MAX_KERNEL_CODE_NUM"
    by (simp add: table_of_def MAX_KERNEL_CODE_NUM_def)
  show ?thesis
    using register_twice_below_capacity [of 1 gpu_env_zero "table_of 1"] a c
    by simp
qed

subsection \<open>The reference count over sequences of calls\<close>

lemma matched_balance:
  "matched b cs g0 \<Longrightarrow> init_count g0 = of_nat b \<Longrightarrow> b \<le> INT_MAX \<Longrightarrow>
   run cs g0 = Some (g, ev) \<Longrightarrow>
   \<exists>b'. b' \<le> INT_MAX \<and> init_count g = of_nat b'"
proof (induction b cs g0 arbitrary: g ev rule: matched.induct)
  case (1 b g0)
  then show ?case by auto
next
  case (2 b rt text_at u ext cs g0)
  from "2.prems"(4) obtain ret u1 g1 ev1 ev2 where
    i: "av_opencl_init rt text_at u ext g0 = Some (ret, u1, g1, ev1)" and
    r: "run cs g1 = Some (g, ev2)"
    by (auto split: option.splits prod.splits)
  show ?case
  proof (cases "ret = RET_OK")
    case True
    have m: "b < INT_MAX" "matched (Suc b) cs g1"
      using "2.prems"(1) i True by simp_all
    have c: "init_count g1 = of_nat (Suc b)"
      using av_opencl_init_init_count [OF i] "2.prems"(2) True by simp
    have l: "Suc b \<le> INT_MAX" using m(1) by simp
    show ?thesis
      using "2.IH"(1) [OF i refl refl refl True m(2) c l r] .
  next
    case False
    have m: "matched b cs g1"
      using "2.prems"(1) i False by simp
    have c: "init_count g1 = of_nat b"
      using av_opencl_init_init_count [OF i] "2.prems"(2) False by simp
    show ?thesis
      using "2.IH"(2) [OF i refl refl refl False m c "2.prems"(3) r] .
  qed
next
  case (3 b rt cs g0)
  from "3.prems"(4) obtain ev2 where
    r: "run cs (fst (av_opencl_uninit rt g0)) = Some (g, ev2)"
    by (auto split: option.splits prod.splits)
  have p: "0 < b" "matched (b - 1) cs (fst (av_opencl_uninit rt g0))"
    using "3.prems"(1) by simp_all
  have "of_nat b = (of_nat (Suc (b - 1)) :: 32 word)" using p(1) by simp
  then have c: "init_count (fst (av_opencl_uninit rt g0)) = of_nat (b - 1)"
    using "3.prems"(2) by (simp add: uninit_init_count del: of_nat_Suc) simp
  have l: "b - 1 \<le> INT_MAX" using "3.prems"(3) by simp
  show ?case
    using "3.IH" [OF p(2) c l r] .
next
  case (4 b p cs g0)
  from "4.prems"(4) obtain g1 ev1 ev2 where
    s: "step (RegisterSource p) g0 = Some (g1, ev1)" and r: "run cs g1 = Some (g, ev2)"
    by (auto split: option.splits prod.splits)
  have c: "init_count g1 = of_nat b"
    using s "4.prems"(2) by (auto split: prod.splits dest: register_init_count)
  show ?case
    using "4.IH" [OF s refl _ c "4.prems"(3) r] "4.prems"(1) s by simp
next
  case (5 b m rt env name cs g0)
  from "5.prems"(4) obtain g1 ev1 ev2 where
    s: "step (CreateKernel m rt env name) g0 = Some (g1, ev1)" and
    r: "run cs g1 = Some (g, ev2)"
    by (auto split: option.splits prod.splits)
  have c: "init_count g1 = of_nat b"
    using s "5.prems"(2) by (auto split: prod.splits dest: create_kernel_init_count)
  show ?case
    using "5.IH" [OF s refl _ c "5.prems"(3) r] "5.prems"(1) s by simp
next
  case (6 b rt env cs g0)
  from "6.prems"(4) obtain g1 ev1 ev2 where
    s: "step (ReleaseKernel rt env) g0 = Some (g1, ev1)" and r: "run cs g1 = Some (g, ev2)"
    by (auto split: option.splits prod.splits)
  have c: "init_count g1 = of_nat b"
    using s "6.prems"(2) by (auto split: prod.splits dest: release_kernel_init_count)
  show ?case
    using "6.IH" [OF s refl _ c "6.prems"(3) r] "6.prems"(1) s by simp
qed

text \<open>
  The count has no ceiling either: a successful Init at the largest \<^verbatim>\<open>int\<close> wraps it to
  the smallest one.
\<close>

lemma init_count_wraps:
  assumes "av_opencl_init rt text_at u ext g = Some (RET_OK, u1, g1, ev)"
    and "init_count g = 2147483647"
  shows "sint (init_count g1) = - 2147483648"
  using av_opencl_init_init_count [OF assms(1)] assms(2) by simp

text \<open>
  C5, as stated, fails: \<^verbatim>\<open>av_opencl_uninit\<close> decrements the count before any test. One
  Uninit on the environment before any Init leaves \<^verbatim>\<open>init_count\<close> at \<open>-1\<close>.
\<close>

theorem unmatched_uninit_counterexample:
  "run [Uninit runtime_ok] gpu_env_zero =
     Some (gpu_env_zero\<lparr>init_count := - 1\<rparr>, [Call_free_device_list, Call_av_opt_free]) \<and>
   sint (init_count (gpu_env_zero\<lparr>init_count := - 1\<rparr>)) = - 1"
  by (simp add: eval_defs)

text \<open>
  C5, amended. From the environment before any call, every sequence of Init, Uninit,
  RegisterSource, CreateKernel and ReleaseKernel calls in which each Uninit is matched
  by an earlier successful Init not yet undone, and in which the successful Init calls
  not yet undone never number more than the largest \<^verbatim>\<open>int\<close> (\<open>2\<^sup>3\<^sup>1 - 1\<close>), leaves
  \<^verbatim>\<open>init_count\<close>, read as a signed 32-bit number, at 0 or above.
\<close>

theorem init_count_nonneg_when_matched:
  assumes "matched 0 cs gpu_env_zero" and "run cs gpu_env_zero = Some (g, ev)"
  shows "0 \<le> sint (init_count g)"
proof -
  have "init_count gpu_env_zero = of_nat 0" by (simp add: gpu_env_zero_def)
  from matched_balance [OF assms(1) this _ assms(2)] obtain b' where
    "b' \<le> INT_MAX" "init_count g = of_nat b'" by auto
  then show ?thesis by (simp add: sint_of_nat_32)
qed

text \<open>C5, amended, at a sequence that registers a source, initialises and uninitialises.\<close>

theorem init_count_nonneg_when_matched_witness:
  "matched 0 [RegisterSource 1, Init runtime_ok source_text openclutils_zero None,
              Uninit runtime_ok] gpu_env_zero \<and>
   run [RegisterSource 1, Init runtime_ok source_text openclutils_zero None,
        Uninit runtime_ok] gpu_env_zero \<noteq> None \<and>
   0 \<le> sint (init_count (fst (the (run [RegisterSource 1,
          Init runtime_ok source_text openclutils_zero None, Uninit runtime_ok] gpu_env_zero))))"
proof -
  let ?cs = "[RegisterSource 1, Init runtime_ok source_text openclutils_zero None,
              Uninit runtime_ok]"
  have m: "matched 0 ?cs gpu_env_zero"
    by (simp add: eval_defs INT_MAX_def)
  have r: "run ?cs gpu_env_zero \<noteq> None"
    by (simp add: eval_defs)
  then have "run ?cs gpu_env_zero =
      Some (fst (the (run ?cs gpu_env_zero)), snd (the (run ?cs gpu_env_zero)))"
    by auto
  from init_count_nonneg_when_matched [OF m this] m r show ?thesis by simp
qed

subsection \<open>An adopted environment stays adopted\<close>

lemma quiet_append: "quiet (a @ b) \<longleftrightarrow> quiet a \<and> quiet b"
  by (auto simp: quiet_def)

lemma quiet_Nil: "quiet []"
  by (simp add: quiet_def)

lemma compile_and_count_adopted:
  assumes "is_user_created g" "quiet ev0"
  shows "adopted_kept g (fst (snd (snd (compile_and_count rt text_at u g ev0)))) \<and>
         quiet (snd (snd (snd (compile_and_count rt text_at u g ev0))))"
proof -
  obtain r g1 ev1 where c: "compile_kernel_file rt text_at (build_options u) g = (r, g1, ev1)"
    by (metis prod_cases3)
  from compile_kernel_file_counts [OF c] compile_kernel_file_quiet [OF c] assms
  show ?thesis
    by (simp add: compile_and_count_def c adopted_kept_def quiet_append quiet_def)
qed

lemma init_adopted:
  assumes "is_user_created g"
  shows "\<exists>r u1 g1 ev. av_opencl_init rt text_at u ext g = Some (r, u1, g1, ev) \<and>
           adopted_kept g g1 \<and> quiet ev"
proof (cases "init_count g = 0")
  case True
  let ?u1 = "if \<not> init_flag u then (av_opt_set_defaults u)\<lparr>init_flag := True\<rparr> else u"
  let ?g0 = "g\<lparr>device_idx := u_device_idx ?u1, platform_idx := u_platform_idx ?u1\<rparr>"
  have e: "init_opencl_env rt ext ?g0 = Some (RET_OK, ?g0, [])"
    using assms by (simp add: init_opencl_env_def split: option.splits)
  have i: "av_opencl_init rt text_at u ext g = Some (compile_and_count rt text_at ?u1 ?g0 [])"
    using True e by (simp add: av_opencl_init_def Let_def)
  have "adopted_kept ?g0 (fst (snd (snd (compile_and_count rt text_at ?u1 ?g0 [])))) \<and>
        quiet (snd (snd (snd (compile_and_count rt text_at ?u1 ?g0 []))))"
    using assms by (intro compile_and_count_adopted) (simp_all add: quiet_Nil)
  then show ?thesis
    unfolding i by (cases "compile_and_count rt text_at ?u1 ?g0 []") (auto simp: adopted_kept_def)
next
  case False
  have i: "av_opencl_init rt text_at u ext g = Some (compile_and_count rt text_at u g [])"
    using False by (simp add: av_opencl_init_def)
  have "adopted_kept g (fst (snd (snd (compile_and_count rt text_at u g [])))) \<and>
        quiet (snd (snd (snd (compile_and_count rt text_at u g []))))"
    using assms by (intro compile_and_count_adopted) (simp_all add: quiet_Nil)
  then show ?thesis
    unfolding i by (cases "compile_and_count rt text_at u g []") auto
qed

lemma uninit_adopted:
  "is_user_created g \<Longrightarrow>
   adopted_kept g (fst (av_opencl_uninit rt g)) \<and> quiet (snd (av_opencl_uninit rt g))"
  by (simp add: av_opencl_uninit_def Let_def adopted_kept_def quiet_def)

lemma step_adopted:
  assumes "is_user_created g"
  shows "\<exists>g1 ev. step c g = Some (g1, ev) \<and> adopted_kept g g1 \<and> quiet ev"
proof (cases c)
  case (Init rt text_at u ext)
  then show ?thesis using init_adopted [OF assms, of rt text_at u ext] by auto
next
  case (Uninit rt)
  then show ?thesis using uninit_adopted [OF assms, of rt]
    by (cases "av_opencl_uninit rt g") auto
next
  case (RegisterSource p)
  then show ?thesis using assms
    by (auto simp: av_opencl_register_kernel_code_def adopted_kept_def quiet_def)
next
  case (CreateKernel m rt env name)
  then show ?thesis using assms create_kernel_loop_quiet
    by (auto simp: av_opencl_create_kernel_def Let_def adopted_kept_def quiet_append quiet_def)
next
  case (ReleaseKernel rt env)
  then show ?thesis using assms
    by (auto simp: av_opencl_release_kernel_def adopted_kept_def quiet_def)
qed

lemma run_adopted:
  "is_user_created g \<Longrightarrow> \<exists>g1 ev. run cs g = Some (g1, ev) \<and> adopted_kept g g1 \<and> quiet ev"
proof (induction cs arbitrary: g)
  case Nil
  then show ?case by (simp add: adopted_kept_def quiet_def)
next
  case (Cons c cs)
  from step_adopted [OF Cons.prems, of c] obtain g1 ev1 where
    s: "step c g = Some (g1, ev1)" "adopted_kept g g1" "quiet ev1" by auto
  then have "is_user_created g1" by (simp add: adopted_kept_def)
  from Cons.IH [OF this] obtain g2 ev2 where
    r: "run cs g1 = Some (g2, ev2)" "adopted_kept g1 g2" "quiet ev2" by auto
  show ?case
    using s r by (simp add: adopted_kept_def quiet_append)
qed

text \<open>
  C9. An Init with an external environment, on an environment that had adopted none,
  sets \<^verbatim>\<open>is_user_created\<close> and takes over the caller's handles. From then on, whatever
  calls follow (an Uninit that brings the count to 0 and an Init without an external
  environment among them), every call returns, the flag stays set, the platform, device,
  device type, context and queue are the adopted ones, and no call discovers devices,
  creates a context or a queue, or tears anything down.
\<close>

theorem adopted_environment_is_kept:
  "(\<not> is_user_created g0 \<longrightarrow>
      init_opencl_env rt (Some e) g0 =
        Some (RET_OK,
              g0\<lparr>platform_id := ext_platform_id e, is_user_created := True,
                 command_queue := ext_command_queue e, context_cl := ext_context e,
                 device_id := ext_device_id e, device_type := ext_device_type e\<rparr>, [])) \<and>
   (is_user_created g \<longrightarrow>
      (\<exists>g1 ev. run cs g = Some (g1, ev) \<and> is_user_created g1 \<and>
         platform_id g1 = platform_id g \<and> device_id g1 = device_id g \<and>
         device_type g1 = device_type g \<and> context_cl g1 = context_cl g \<and>
         command_queue g1 = command_queue g \<and>
         filter is_env_creation ev = [] \<and> filter is_teardown_release ev = []))"
proof -
  have a: "\<not> is_user_created g0 \<longrightarrow>
      init_opencl_env rt (Some e) g0 =
        Some (RET_OK,
              g0\<lparr>platform_id := ext_platform_id e, is_user_created := True,
                 command_queue := ext_command_queue e, context_cl := ext_context e,
                 device_id := ext_device_id e, device_type := ext_device_type e\<rparr>, [])"
    by (simp add: init_opencl_env_def)
  have b: "\<exists>g1 ev. run cs g = Some (g1, ev) \<and> is_user_created g1 \<and>
         platform_id g1 = platform_id g \<and> device_id g1 = device_id g \<and>
         device_type g1 = device_type g \<and> context_cl g1 = context_cl g \<and>
         command_queue g1 = command_queue g \<and>
         filter is_env_creation ev = [] \<and> filter is_teardown_release ev = []"
    if "is_user_created g"
    using run_adopted [OF that, of cs] by (auto simp: adopted_kept_def quiet_def)
  show ?thesis using a b by blast
qed

text \<open>
  C9, at the adopted environment: after its Uninit the count is 0, and the Init without
  an external environment that follows keeps the caller's handles and creates nothing.
\<close>

theorem adopted_environment_is_kept_witness:
  "\<not> is_user_created gpu_env_zero \<and>
   is_user_created env_adopted \<and>
   init_count (fst (av_opencl_uninit runtime_ok env_adopted)) = 0 \<and>
   (\<exists>g1 ev. run [Uninit runtime_ok, Init runtime_ok source_text openclutils_zero None]
               env_adopted = Some (g1, ev) \<and>
      is_user_created g1 \<and> platform_id g1 = 31 \<and> device_id g1 = 33 \<and> context_cl g1 = 32 \<and>
      command_queue g1 = 34 \<and> filter is_env_creation ev = [])"
  using adopted_environment_is_kept [of gpu_env_zero runtime_ok ext_example env_adopted
      "[Uninit runtime_ok, Init runtime_ok source_text openclutils_zero None]"]
    env_adopted_fields uninit_init_count [of runtime_ok env_adopted]
  by (auto simp: gpu_env_zero_def)

subsection \<open>A failed compile pass\<close>

lemma compiled_belowI:
  "n \<le> kernel_code_count g \<Longrightarrow>
   (\<And>i. i < n \<Longrightarrow> is_compiled (kernel_code g i) \<and>
                    kernel_string (kernel_code g i) = kernel_string (kc i)) \<Longrightarrow>
   compiled_below n kc g"
  by (simp add: compiled_below_def list_all_iff)

lemma compiled_belowD:
  "compiled_below n kc g \<Longrightarrow> i < n \<Longrightarrow>
   is_compiled (kernel_code g i) \<and> kernel_string (kernel_code g i) = kernel_string (kc i)"
  by (simp add: compiled_below_def list_all_iff)

lemma compiled_below_le: "compiled_below n kc g \<Longrightarrow> n \<le> kernel_code_count g"
  by (simp add: compiled_below_def)

lemma compiled_below_cong:
  "compiled_below n kc g \<Longrightarrow> kernel_code g1 = kernel_code g \<Longrightarrow>
   kernel_code_count g1 = kernel_code_count g \<Longrightarrow> compiled_below n kc g1"
  by (simp add: compiled_below_def)

lemma mark_compiled_fields:
  "kernel_code_count (mark_compiled g) = kernel_code_count g \<and>
   kernel_string (kernel_code (mark_compiled g) i) = kernel_string (kernel_code g i) \<and>
   (is_compiled (kernel_code g i) \<longrightarrow> is_compiled (kernel_code (mark_compiled g) i)) \<and>
   (i < kernel_code_count g \<longrightarrow> is_compiled (kernel_code (mark_compiled g) i))"
  by (simp add: mark_compiled_def)

lemma uncompiled_mark_compiled: "uncompiled (mark_compiled g) = []"
  by (simp add: uncompiled_def mark_compiled_def filter_empty_conv)

lemma compile_kernel_file_result:
  "compile_kernel_file rt text_at bo g = (r, g1, ev) \<Longrightarrow>
   (kernel_code g1 = kernel_code g \<or> kernel_code g1 = kernel_code (mark_compiled g)) \<and>
   kernel_code_count g1 = kernel_code_count g"
  unfolding compile_kernel_file_def Let_def
  by (simp add: mark_compiled_fields split: if_splits) (auto simp: mark_compiled_fields)

lemma compile_kernel_file_compiled_below:
  assumes "compile_kernel_file rt text_at bo g = (r, g1, ev)" "compiled_below n kc g"
  shows "compiled_below n kc g1"
proof (rule compiled_belowI)
  show "n \<le> kernel_code_count g1"
    using compile_kernel_file_result [OF assms(1)] compiled_below_le [OF assms(2)] by simp
next
  fix i assume "i < n"
  from compiled_belowD [OF assms(2) this] compile_kernel_file_result [OF assms(1)]
    mark_compiled_fields [of g i]
  show "is_compiled (kernel_code g1 i) \<and> kernel_string (kernel_code g1 i) = kernel_string (kc i)"
    by auto
qed

text \<open>
  The pass returns \<^verbatim>\<open>AVERROR_EXTERNAL\<close> only after the second loop: the entries are
  marked, the program slot is written, \<^verbatim>\<open>program_count\<close> is not moved, and the first
  call made is the creation of the program from the text of the uncompiled entries.
\<close>

lemma compile_external:
  assumes "compile_kernel_file rt text_at bo g = (AVERROR_EXTERNAL, g1, ev)"
  shows "g1 = (mark_compiled g)\<lparr>programs := (programs g)
                 (program_count g :=
                    fst (clCreateProgramWithSource rt (context_cl g)
                           (concat (uncompiled_texts text_at g))))\<rparr> \<and>
         hd ev = Call_clCreateProgramWithSource (context_cl g)
                   (concat (uncompiled_texts text_at g)) \<and>
         sum_list (map length (uncompiled_texts text_at g)) \<noteq> 0"
proof -
  have m: "context_cl (mark_compiled g) = context_cl g" "programs (mark_compiled g) = programs g"
    "program_count (mark_compiled g) = program_count g"
    by (simp_all add: mark_compiled_def)
  show ?thesis
    using assms unfolding compile_kernel_file_def Let_def m
    by (simp split: if_splits) auto
qed

lemma compile_nothing_uncompiled:
  "uncompiled g = [] \<Longrightarrow> compile_kernel_file rt text_at bo g = (RET_OK, g, [])"
  by (simp add: compile_kernel_file_def uncompiled_texts_def)

lemma uninit_kernel_code:
  "kernel_code (fst (av_opencl_uninit rt g)) = kernel_code g \<and>
   kernel_code_count (fst (av_opencl_uninit rt g)) = kernel_code_count g"
  by (simp add: av_opencl_uninit_def Let_def teardown_def release_programs_def
      release_command_queue_def release_context_def split: prod.splits)

lemma compile_and_count_kernel_code:
  assumes "compile_and_count rt t u g ev0 = (r, u1, g1, ev)"
  shows "\<exists>r2 g2 ev2. compile_kernel_file rt t (build_options u) g = (r2, g2, ev2) \<and>
           kernel_code g1 = kernel_code g2 \<and> kernel_code_count g1 = kernel_code_count g2"
proof -
  obtain r2 g2 ev2 where c: "compile_kernel_file rt t (build_options u) g = (r2, g2, ev2)"
    by (metis prod_cases3)
  have "kernel_code g1 = kernel_code g2 \<and> kernel_code_count g1 = kernel_code_count g2"
    using assms unfolding compile_and_count_def c
    by (simp split: if_splits) auto
  then show ?thesis using c by simp
qed

lemma compile_and_count_compiled_below:
  assumes "compile_and_count rt t u g ev0 = (r, u1, g1, ev)" "compiled_below n kc g"
  shows "compiled_below n kc g1"
proof -
  from compile_and_count_kernel_code [OF assms(1)] obtain r2 g2 ev2 where
    c: "compile_kernel_file rt t (build_options u) g = (r2, g2, ev2)" and
    k: "kernel_code g1 = kernel_code g2" "kernel_code_count g1 = kernel_code_count g2"
    by blast
  show ?thesis
    using compiled_below_cong [OF compile_kernel_file_compiled_below [OF c assms(2)] k] .
qed

lemma init_compiled_below:
  assumes "av_opencl_init rt text_at u ext g = Some (r, u1, g1, ev)" "compiled_below n kc g"
  shows "compiled_below n kc g1"
proof (cases "init_count g = 0")
  case False
  then have "compile_and_count rt text_at u g [] = (r, u1, g1, ev)"
    using assms(1) by (simp add: av_opencl_init_def)
  then show ?thesis using assms(2) by (rule compile_and_count_compiled_below)
next
  case True
  define u0 where "u0 = (if \<not> init_flag u then (av_opt_set_defaults u)\<lparr>init_flag := True\<rparr> else u)"
  define g0 where "g0 = g\<lparr>device_idx := u_device_idx u0, platform_idx := u_platform_idx u0\<rparr>"
  have i: "av_opencl_init rt text_at u ext g =
             (case init_opencl_env rt ext g0 of
                None \<Rightarrow> None
              | Some (ret, g1, ev1) \<Rightarrow>
                  if ret \<noteq> RET_OK then Some (ret, u0, g1, ev1)
                  else Some (compile_and_count rt text_at u0 g1 ev1))"
    using True unfolding av_opencl_init_def Let_def u0_def g0_def by simp
  have b: "compiled_below n kc g0"
    using assms(2) by (simp add: g0_def compiled_below_def)
  show ?thesis
  proof (cases "init_opencl_env rt ext g0")
    case None
    then show ?thesis using assms(1) i by simp
  next
    case (Some x)
    obtain r0 g0' ev0 where x: "x = (r0, g0', ev0)" by (metis prod_cases3)
    have e: "init_opencl_env rt ext g0 = Some (r0, g0', ev0)" using Some x by simp
    have b0: "compiled_below n kc g0'"
      using init_opencl_env_kept [OF e] by (intro compiled_below_cong [OF b]) simp_all
    show ?thesis
    proof (cases "r0 = RET_OK")
      case True
      then have "compile_and_count rt text_at u0 g0' ev0 = (r, u1, g1, ev)"
        using assms(1) i e by simp
      then show ?thesis using b0 by (rule compile_and_count_compiled_below)
    next
      case False
      then have "g1 = g0'" using assms(1) i e by simp
      then show ?thesis using b0 by simp
    qed
  qed
qed

lemma step_compiled_below:
  assumes "step c g = Some (g1, ev)" "compiled_below n kc g"
  shows "compiled_below n kc g1"
proof (cases c)
  case (Init rt text_at u ext)
  then show ?thesis using assms init_compiled_below
    by (auto split: option.splits)
next
  case (Uninit rt)
  then show ?thesis using assms uninit_kernel_code [of rt g]
    by (auto intro: compiled_below_cong)
next
  case (RegisterSource p)
  then show ?thesis using assms
    by (auto simp: av_opencl_register_kernel_code_def compiled_below_def list_all_iff
        split: if_splits)
next
  case (CreateKernel m rt env name)
  then show ?thesis using assms
    by (auto simp: av_opencl_create_kernel_def Let_def compiled_below_def split: if_splits)
next
  case (ReleaseKernel rt env)
  then show ?thesis using assms
    by (auto simp: av_opencl_release_kernel_def compiled_below_def split: if_splits)
qed

lemma run_compiled_below:
  "run cs g = Some (g1, ev) \<Longrightarrow> compiled_below n kc g \<Longrightarrow> compiled_below n kc g1"
proof (induction cs arbitrary: g ev)
  case Nil
  then show ?case by simp
next
  case (Cons c cs)
  from Cons.prems(1) obtain g' ev' ev'' where
    s: "step c g = Some (g', ev')" and r: "run cs g' = Some (g1, ev'')"
    by (auto split: option.splits)
  show ?case
    using Cons.IH [OF r step_compiled_below [OF s Cons.prems(2)]] .
qed

lemma compiled_below_uncompiled:
  "compiled_below n kc g \<Longrightarrow> list_all (\<lambda>i. n \<le> i) (uncompiled g)"
  by (auto simp: compiled_below_def uncompiled_def list_all_iff not_less [symmetric])

text \<open>
  C10. When a compile pass returns \<^verbatim>\<open>AVERROR_EXTERNAL\<close> (the creation of the program
  failed, or gave a null program, or the build failed), the text it submitted is the
  concatenation of the entries that were not compiled, in registration order; every
  entry of the table is marked compiled afterwards and keeps its source pointer; the
  table size and \<^verbatim>\<open>program_count\<close> are unchanged. A compile pass made right after
  submits nothing and returns 0. After any further calls, the entries that a compile
  pass can still submit all lie behind the ones of the failed pass, which stay marked.
\<close>

theorem failed_compile_marks_fragments:
  assumes "compile_kernel_file rt text_at bo g = (AVERROR_EXTERNAL, g1, ev)"
  shows
    "hd ev = Call_clCreateProgramWithSource (context_cl g)
               (concat (uncompiled_texts text_at g)) \<and>
     list_all (\<lambda>i. is_compiled (kernel_code g1 i) \<and>
                    kernel_string (kernel_code g1 i) = kernel_string (kernel_code g i))
       [0 ..< kernel_code_count g] \<and>
     kernel_code_count g1 = kernel_code_count g \<and>
     program_count g1 = program_count g \<and>
     uncompiled g1 = [] \<and>
     compile_kernel_file rt2 text_at2 bo2 g1 = (RET_OK, g1, []) \<and>
     (run cs g1 = Some (g2, ev2) \<longrightarrow>
        list_all (\<lambda>i. kernel_code_count g \<le> i) (uncompiled g2) \<and>
        list_all (\<lambda>i. is_compiled (kernel_code g2 i) \<and>
                       kernel_string (kernel_code g2 i) = kernel_string (kernel_code g i))
          [0 ..< kernel_code_count g])"
proof -
  note e = compile_external [OF assms]
  have g1: "g1 = (mark_compiled g)\<lparr>programs := (programs g)
                 (program_count g :=
                    fst (clCreateProgramWithSource rt (context_cl g)
                           (concat (uncompiled_texts text_at g))))\<rparr>"
    using e by simp
  have k: "kernel_code g1 = kernel_code (mark_compiled g)"
    "kernel_code_count g1 = kernel_code_count g" "program_count g1 = program_count g"
    by (simp_all add: g1 mark_compiled_def)
  have u: "uncompiled g1 = []"
    using uncompiled_mark_compiled [of g] k by (simp add: uncompiled_def mark_compiled_def)
  have b: "compiled_below (kernel_code_count g) (kernel_code g) g1"
    using mark_compiled_fields [of g] k by (intro compiled_belowI) simp_all
  have later: "list_all (\<lambda>i. kernel_code_count g \<le> i) (uncompiled g2) \<and>
        list_all (\<lambda>i. is_compiled (kernel_code g2 i) \<and>
                       kernel_string (kernel_code g2 i) = kernel_string (kernel_code g i))
          [0 ..< kernel_code_count g]"
    if "run cs g1 = Some (g2, ev2)"
    using run_compiled_below [OF that b] compiled_below_uncompiled [of "kernel_code_count g" "kernel_code g" g2]
    by (simp add: compiled_below_def)
  show ?thesis
    using e k(2,3) u b later compile_nothing_uncompiled [OF u, of rt2 text_at2 bo2]
    by (simp add: compiled_below_def)
qed

text \<open>
  C10, at a table of two sources and a runtime whose build fails: both are marked, no
  program is counted, and after a third source is registered the next pass can submit
  only that one.
\<close>

theorem failed_compile_marks_fragments_witness:
  "fst (compile_kernel_file runtime_build_fails source_text None (table_of 2)) =
     AVERROR_EXTERNAL \<and>
   hd (snd (snd (compile_kernel_file runtime_build_fails source_text None (table_of 2)))) =
     Call_clCreateProgramWithSource 0 ''kernel_akernel_b'' \<and>
   program_count (fst (snd (compile_kernel_file runtime_build_fails source_text None
                              (table_of 2)))) = 0 \<and>
   uncompiled (fst (snd (compile_kernel_file runtime_build_fails source_text None
                           (table_of 2)))) = [] \<and>
   uncompiled (fst (the (run [RegisterSource 3]
       (fst (snd (compile_kernel_file runtime_build_fails source_text None (table_of 2))))))) =
     [2]"
proof -
  let ?r = "compile_kernel_file runtime_build_fails source_text None (table_of 2)"
  have upt2: "[0 ..< 2] = [0, Suc 0]"
    by (simp add: numeral_2_eq_2)
  have upt3: "[0 ..< 3] = [0, Suc 0, 2]"
    by (simp add: numeral_3_eq_3)
  have u2: "uncompiled (table_of 2) = [0, 1]"
    by (simp add: uncompiled_def table_of_def gpu_env_zero_def upt2)
  have ut: "uncompiled_texts source_text (table_of 2) = [''kernel_a'', ''kernel_b'']"
    unfolding uncompiled_texts_def u2 by (simp add: table_of_def source_text_def)
  have r: "fst ?r = AVERROR_EXTERNAL"
    by (simp add: compile_kernel_file_def ut Let_def runtime_build_fails_def runtime_ok_def
        CL_SUCCESS_def)
  then have c: "?r = (AVERROR_EXTERNAL, fst (snd ?r), snd (snd ?r))"
    by (metis prod.collapse)
  have t: "concat (uncompiled_texts source_text (table_of 2)) = ''kernel_akernel_b''"
    by (simp add: ut)
  have s: "run [RegisterSource 3] (fst (snd ?r)) \<noteq> None"
    by (simp split: prod.splits)
  have l: "list_all (\<lambda>i. is_compiled (kernel_code (fst (snd ?r)) i) \<and>
             kernel_string (kernel_code (fst (snd ?r)) i) = kernel_string (kernel_code (table_of 2) i))
             [0 ..< kernel_code_count (table_of 2)]"
    using failed_compile_marks_fragments [OF c] by simp
  have n: "kernel_code_count (fst (snd ?r)) = 2"
    using failed_compile_marks_fragments [OF c] by (simp add: table_of_def)
  have k0: "kernel_string (kernel_code (fst (snd ?r)) 0) = 1"
    and k1: "kernel_string (kernel_code (fst (snd ?r)) 1) = 2"
    and i0: "is_compiled (kernel_code (fst (snd ?r)) 0)"
    and i1: "is_compiled (kernel_code (fst (snd ?r)) 1)"
    using l by (simp_all add: table_of_def upt2)
  have "uncompiled (fst (the (run [RegisterSource 3] (fst (snd ?r))))) = [2]"
    using n k0 k1 i0 i1
    by (simp add: av_opencl_register_kernel_code_def MAX_KERNEL_CODE_NUM_def uncompiled_def
        upt2 upt3)
  then show ?thesis
    using failed_compile_marks_fragments [OF c] r t
    by (simp add: table_of_def gpu_env_zero_def)
qed

subsection \<open>The tables stay inside their arrays\<close>

text \<open>
  The arrays \<^verbatim>\<open>kernel_code\<close> and \<^verbatim>\<open>programs\<close> have \<^verbatim>\<open>MAX_KERNEL_CODE_NUM\<close> entries. In
  every environment that calls of the interface reach, both counts are within that
  number, and a compile pass that stores a program at \<^verbatim>\<open>programs[program_count]\<close> finds
  \<^verbatim>\<open>program_count\<close> below it: each successful pass compiles at least one more entry.
\<close>

lemma compiled_count_uncompiled:
  "compiled_count g + length (uncompiled g) = kernel_code_count g"
  unfolding compiled_count_def uncompiled_def
  using sum_length_filter_compl [of "\<lambda>i. is_compiled (kernel_code g i)" "[0 ..< kernel_code_count g]"]
  by simp

lemma compiled_count_cong:
  "kernel_code g1 = kernel_code g \<Longrightarrow> kernel_code_count g1 = kernel_code_count g \<Longrightarrow>
   compiled_count g1 = compiled_count g"
  by (simp add: compiled_count_def)

lemma compiled_count_mark_compiled: "compiled_count (mark_compiled g) = kernel_code_count g"
  using compiled_count_uncompiled [of "mark_compiled g"]
  by (simp add: uncompiled_mark_compiled mark_compiled_fields)

lemma compiled_count_le: "compiled_count g \<le> kernel_code_count g"
  using compiled_count_uncompiled [of g] by simp

lemma write_index_in_bounds:
  assumes "tables_bounded g" "uncompiled g \<noteq> []"
  shows "program_count g < MAX_KERNEL_CODE_NUM"
proof -
  have "compiled_count g < kernel_code_count g"
    using compiled_count_uncompiled [of g] assms(2) by (cases "uncompiled g") auto
  then show ?thesis using assms(1) by (simp add: tables_bounded_def)
qed

lemma uncompiled_compiled_count_less:
  "uncompiled g \<noteq> [] \<Longrightarrow> compiled_count g < kernel_code_count g"
  using compiled_count_uncompiled [of g] by (cases "uncompiled g") auto

lemma register_tables_bounded:
  assumes "av_opencl_register_kernel_code p g = (r, g1, ev)" "tables_bounded g"
  shows "tables_bounded g1"
proof (cases "g1 = g")
  case True
  then show ?thesis using assms(2) by simp
next
  case False
  then have n: "kernel_code_count g < MAX_KERNEL_CODE_NUM"
    and g1: "g1 = g\<lparr>kernel_code := (kernel_code g)
              (kernel_code_count g := \<lparr>is_compiled = False, kernel_string = p\<rparr>),
           kernel_code_count := kernel_code_count g + 1\<rparr>"
    using assms(1) by (auto simp: av_opencl_register_kernel_code_def split: if_splits)
  have "filter (\<lambda>i. is_compiled (kernel_code g1 i)) [0 ..< kernel_code_count g] =
        filter (\<lambda>i. is_compiled (kernel_code g i)) [0 ..< kernel_code_count g]"
    by (rule filter_cong) (auto simp: g1)
  then have "compiled_count g1 = compiled_count g"
    by (simp add: compiled_count_def g1)
  then show ?thesis
    using assms(2) n by (simp add: tables_bounded_def g1)
qed

lemma compile_tables_bounded:
  assumes "compile_kernel_file rt text_at bo g = (r, g1, ev)" "tables_bounded g"
  shows "tables_bounded g1"
proof (cases "g1 = g")
  case True
  then show ?thesis using assms(2) by simp
next
  case False
  then have s: "sum_list (map length (uncompiled_texts text_at g)) \<noteq> 0"
    using assms(1) by (auto simp: compile_kernel_file_def split: if_splits)
  then have u: "uncompiled g \<noteq> []"
    by (auto simp: uncompiled_texts_def)
  have k: "kernel_code g1 = kernel_code (mark_compiled g)"
    "kernel_code_count g1 = kernel_code_count g"
    "program_count g1 \<le> program_count g + 1"
    using assms(1) False unfolding compile_kernel_file_def Let_def
    by (simp_all add: mark_compiled_def split: if_splits) auto
  have "compiled_count g1 = kernel_code_count g"
    using compiled_count_cong [of g1 "mark_compiled g"] k compiled_count_mark_compiled [of g]
    by (simp add: mark_compiled_fields)
  moreover have "program_count g < kernel_code_count g"
    using uncompiled_compiled_count_less [OF u] assms(2)
    by (simp add: tables_bounded_def)
  ultimately show ?thesis
    using assms(2) k by (simp add: tables_bounded_def)
qed


lemma init_tables_bounded:
  assumes "av_opencl_init rt text_at u ext g = Some (r, u1, g1, ev)" "tables_bounded g"
  shows "tables_bounded g1"
proof -
  have cc: "tables_bounded g1'"
    if "compile_and_count rt' t' u' g' ev' = (r', u1', g1', ev1')" "tables_bounded g'"
    for rt' t' u' g' ev' r' u1' g1' ev1'
  proof -
    from compile_and_count_kernel_code [OF that(1)] obtain r2 g2 ev2 where
      c: "compile_kernel_file rt' t' (build_options u') g' = (r2, g2, ev2)" and
      k: "kernel_code g1' = kernel_code g2" "kernel_code_count g1' = kernel_code_count g2"
      by blast
    have p: "program_count g1' = program_count g2"
      using that(1) unfolding compile_and_count_def c by (simp split: if_splits) auto
    show ?thesis
      using compile_tables_bounded [OF c that(2)] compiled_count_cong [OF k] k p
      by (simp add: tables_bounded_def)
  qed
  show ?thesis
  proof (cases "init_count g = 0")
    case False
    then have "compile_and_count rt text_at u g [] = (r, u1, g1, ev)"
      using assms(1) by (simp add: av_opencl_init_def)
    then show ?thesis using assms(2) by (rule cc)
  next
    case True
    define u0 where "u0 = (if \<not> init_flag u then (av_opt_set_defaults u)\<lparr>init_flag := True\<rparr> else u)"
    define g0 where "g0 = g\<lparr>device_idx := u_device_idx u0, platform_idx := u_platform_idx u0\<rparr>"
    have i: "av_opencl_init rt text_at u ext g =
               (case init_opencl_env rt ext g0 of
                  None \<Rightarrow> None
                | Some (ret, g1, ev1) \<Rightarrow>
                    if ret \<noteq> RET_OK then Some (ret, u0, g1, ev1)
                    else Some (compile_and_count rt text_at u0 g1 ev1))"
      using True unfolding av_opencl_init_def Let_def u0_def g0_def by simp
    have b: "tables_bounded g0"
      using assms(2) by (simp add: g0_def tables_bounded_def compiled_count_def)
    show ?thesis
    proof (cases "init_opencl_env rt ext g0")
      case None
      then show ?thesis using assms(1) i by simp
    next
      case (Some x)
      obtain r0 g0' ev0 where x: "x = (r0, g0', ev0)" by (metis prod_cases3)
      have e: "init_opencl_env rt ext g0 = Some (r0, g0', ev0)" using Some x by simp
      have b0: "tables_bounded g0'"
        using init_opencl_env_kept [OF e] b by (simp add: tables_bounded_def compiled_count_def)
      show ?thesis
      proof (cases "r0 = RET_OK")
        case True
        then have "compile_and_count rt text_at u0 g0' ev0 = (r, u1, g1, ev)"
          using assms(1) i e by simp
        then show ?thesis using b0 by (rule cc)
      next
        case False
        then have "g1 = g0'" using assms(1) i e by simp
        then show ?thesis using b0 by simp
      qed
    qed
  qed
qed

lemma uninit_tables:
  "kernel_code (fst (av_opencl_uninit rt g)) = kernel_code g \<and>
   kernel_code_count (fst (av_opencl_uninit rt g)) = kernel_code_count g \<and>
   program_count (fst (av_opencl_uninit rt g)) = program_count g"
  by (simp add: av_opencl_uninit_def Let_def teardown_def release_programs_def
      release_command_queue_def release_context_def split: prod.splits)

lemma step_tables_bounded:
  assumes "step c g = Some (g1, ev)" "tables_bounded g"
  shows "tables_bounded g1"
proof (cases c)
  case (Init rt text_at u ext)
  then show ?thesis using assms init_tables_bounded
    by (auto split: option.splits)
next
  case (Uninit rt)
  then show ?thesis using assms uninit_tables [of rt g]
    by (auto simp: tables_bounded_def compiled_count_def)
next
  case (RegisterSource p)
  then show ?thesis using assms register_tables_bounded
    by (auto split: prod.splits)
next
  case (CreateKernel m rt env name)
  then show ?thesis using assms
    by (auto simp: av_opencl_create_kernel_def Let_def tables_bounded_def compiled_count_def
        split: if_splits)
next
  case (ReleaseKernel rt env)
  then show ?thesis using assms
    by (auto simp: av_opencl_release_kernel_def tables_bounded_def compiled_count_def
        split: if_splits)
qed

lemma run_tables_bounded:
  "run cs g = Some (g1, ev) \<Longrightarrow> tables_bounded g \<Longrightarrow> tables_bounded g1"
proof (induction cs arbitrary: g ev)
  case Nil
  then show ?case by simp
next
  case (Cons c cs)
  from Cons.prems(1) obtain g' ev' ev'' where
    s: "step c g = Some (g', ev')" and r: "run cs g' = Some (g1, ev'')"
    by (auto split: option.splits)
  show ?case
    using Cons.IH [OF r step_tables_bounded [OF s Cons.prems(2)]] .
qed

lemma tables_bounded_zero: "tables_bounded gpu_env_zero"
  by (simp add: tables_bounded_def gpu_env_zero_def compiled_count_def)

lemma reachable_tables_in_bounds:
  assumes "run cs gpu_env_zero = Some (g, ev)"
  shows "kernel_code_count g \<le> MAX_KERNEL_CODE_NUM \<and> program_count g \<le> MAX_KERNEL_CODE_NUM \<and>
         (uncompiled g \<noteq> [] \<longrightarrow> program_count g < MAX_KERNEL_CODE_NUM)"
  using run_tables_bounded [OF assms tables_bounded_zero] write_index_in_bounds [of g]
    compiled_count_le [of g]
  by (auto simp: tables_bounded_def)

end
